theory Spec2Isabelle
  imports Main "HOL-Library.Word"
begin

section \<open>JavaScript strings\<close>

text \<open>
  A JavaScript string is a sequence of 16-bit code units. \<open>js\<close> embeds a literal whose
  characters are below 256. \<open>isWhiteSpace\<close> is the set that both \<open>String.prototype.trim\<close>
  and the class \<open>\s\<close> use (white space and line terminators); \<open>isWordChar\<close> is \<open>\w\<close>
  and \<open>isDigit\<close> is \<open>\d\<close>.
\<close>

type_synonym jschar = "16 word"

type_synonym jsstring = "jschar list"

definition js :: "string \<Rightarrow> jsstring" where
  "js s = map of_char s"

definition isWhiteSpace :: "jschar \<Rightarrow> bool" where
  "isWhiteSpace c =
     (c = 0x09 \<or> c = 0x0A \<or> c = 0x0B \<or> c = 0x0C \<or> c = 0x0D \<or> c = 0x20 \<or> c = 0xA0
      \<or> c = 0x1680 \<or> (0x2000 \<le> c \<and> c \<le> 0x200A) \<or> c = 0x2028 \<or> c = 0x2029
      \<or> c = 0x202F \<or> c = 0x205F \<or> c = 0x3000 \<or> c = 0xFEFF)"

definition isDigit :: "jschar \<Rightarrow> bool" where
  "isDigit c = (0x30 \<le> c \<and> c \<le> 0x39)"

definition isWordChar :: "jschar \<Rightarrow> bool" where
  "isWordChar c =
     ((0x61 \<le> c \<and> c \<le> 0x7A) \<or> (0x41 \<le> c \<and> c \<le> 0x5A) \<or> isDigit c \<or> c = 0x5F)"

text \<open>
  \<open>canonicalize\<close> is the case folding of a pattern with the \<open>i\<close> flag (without \<open>u\<close>),
  restricted to what an ASCII pattern character can match: a code unit of 128 or more never
  folds to an ASCII one.
\<close>

definition canonicalize :: "jschar \<Rightarrow> jschar" where
  "canonicalize c = (if 0x61 \<le> c \<and> c \<le> 0x7A then c - 0x20 else c)"

text \<open>
  \<open>trim\<close>, \<open>split\<close> on a one-unit separator, \<open>join\<close>, and \<open>indexOf\<close>, which answers
  \<open>-1\<close> when the needle does not occur. \<open>split\<close> always returns at least one piece,
  so its branch for an empty list of pieces is never taken.
\<close>

definition trim :: "jsstring \<Rightarrow> jsstring" where
  "trim s = rev (dropWhile isWhiteSpace (rev (dropWhile isWhiteSpace s)))"

fun split :: "jschar \<Rightarrow> jsstring \<Rightarrow> jsstring list" where
  "split sep [] = [[]]"
| "split sep (c # cs) =
     (if c = sep then [] # split sep cs
      else (case split sep cs of [] \<Rightarrow> [[c]] | l # ls \<Rightarrow> (c # l) # ls))"

fun join :: "jschar \<Rightarrow> jsstring list \<Rightarrow> jsstring" where
  "join sep [] = []"
| "join sep [l] = l"
| "join sep (l # l' # ls) = l @ sep # join sep (l' # ls)"

fun indexOfFrom :: "jsstring \<Rightarrow> nat \<Rightarrow> jsstring \<Rightarrow> int" where
  "indexOfFrom needle i [] = (if needle = [] then int i else - 1)"
| "indexOfFrom needle i (c # cs) =
     (if take (length needle) (c # cs) = needle then int i else indexOfFrom needle (Suc i) cs)"

definition indexOf :: "jsstring \<Rightarrow> jsstring \<Rightarrow> int" where
  "indexOf s needle = indexOfFrom needle 0 s"

text \<open>
  \<open>truthy\<close> is the truth value of a string that may be \<open>undefined\<close>; \<open>orElse v d\<close> is
  \<open>v || d\<close>. \<open>toLowerCase\<close> lowers the ASCII letters and maps U+212A (KELVIN SIGN) to
  \<open>k\<close>; every other code unit that JavaScript changes stays outside ASCII, so a lookup of
  the result among ASCII keys is not affected.
\<close>

definition truthy :: "jsstring option \<Rightarrow> bool" where
  "truthy v = (case v of None \<Rightarrow> False | Some s \<Rightarrow> s \<noteq> [])"

definition orElse :: "jsstring option \<Rightarrow> jsstring \<Rightarrow> jsstring" where
  "orElse v d = (case v of None \<Rightarrow> d | Some s \<Rightarrow> if s = [] then d else s)"

definition toLowerCase :: "jsstring \<Rightarrow> jsstring" where
  "toLowerCase s =
     map (\<lambda>c. if 0x41 \<le> c \<and> c \<le> 0x5A then c + 0x20 else if c = 0x212A then 0x6B else c) s"

datatype jsError = Error jsstring | TypeError jsstring

fun message :: "jsError \<Rightarrow> jsstring" where
  "message (Error msg) = msg"
| "message (TypeError msg) = msg"

section \<open>Regular expressions\<close>

text \<open>
  The patterns of the source use literal characters, the classes \<open>\w\<close>, \<open>\d\<close>, \<open>\s\<close>,
  \<open>\S\<close>, bracket classes, concatenation, an optional group, greedy \<open>+\<close> and \<open>*\<close> and lazy
  \<open>*?\<close> on single classes, and capturing groups. \<open>rmatch\<close> is the backtracking matcher:
  it lists, in the order in which the engine tries them, the ways a pattern matches a prefix
  of the input, each as the captures and the rest of the input. The first element is the
  match JavaScript reports. The flag \<open>ic\<close> is \<open>ignoreCase\<close>. \<open>greedy p s\<close> lists what is
  left of \<open>s\<close> after a run of units that satisfy \<open>p\<close>, the longest run first; \<open>lazy p s\<close>
  lists the same, the shortest run first.
\<close>

datatype cclass = Ch jschar | Word | Digit | Space | Neg cclass | Either cclass cclass

fun cmatch :: "bool \<Rightarrow> cclass \<Rightarrow> jschar \<Rightarrow> bool" where
  "cmatch ic (Ch p) c = (if ic then canonicalize c = canonicalize p else c = p)"
| "cmatch ic Word c = isWordChar c"
| "cmatch ic Digit c = isDigit c"
| "cmatch ic Space c = isWhiteSpace c"
| "cmatch ic (Neg k) c = (\<not> cmatch ic k c)"
| "cmatch ic (Either k k') c = (cmatch ic k c \<or> cmatch ic k' c)"

datatype regex =
    Eps
  | Atom cclass
  | Cat regex regex
  | Opt regex
  | Plus cclass
  | Star cclass
  | LazyStar cclass
  | Group nat regex

fun greedy :: "(jschar \<Rightarrow> bool) \<Rightarrow> jsstring \<Rightarrow> jsstring list" where
  "greedy p [] = [[]]"
| "greedy p (c # cs) = (if p c then greedy p cs @ [c # cs] else [c # cs])"

fun lazy :: "(jschar \<Rightarrow> bool) \<Rightarrow> jsstring \<Rightarrow> jsstring list" where
  "lazy p [] = [[]]"
| "lazy p (c # cs) = (c # cs) # (if p c then lazy p cs else [])"

type_synonym captures = "nat \<rightharpoonup> jsstring"

fun rmatch :: "bool \<Rightarrow> regex \<Rightarrow> captures \<times> jsstring \<Rightarrow> (captures \<times> jsstring) list" where
  "rmatch ic Eps st = [st]"
| "rmatch ic (Atom k) (cp, s) =
     (case s of [] \<Rightarrow> [] | c # cs \<Rightarrow> if cmatch ic k c then [(cp, cs)] else [])"
| "rmatch ic (Cat r r') st = concat (map (rmatch ic r') (rmatch ic r st))"
| "rmatch ic (Opt r) st = rmatch ic r st @ [st]"
| "rmatch ic (Plus k) (cp, s) =
     (case s of [] \<Rightarrow> []
      | c # cs \<Rightarrow> if cmatch ic k c then map (Pair cp) (greedy (cmatch ic k) cs) else [])"
| "rmatch ic (Star k) (cp, s) = map (Pair cp) (greedy (cmatch ic k) s)"
| "rmatch ic (LazyStar k) (cp, s) = map (Pair cp) (lazy (cmatch ic k) s)"
| "rmatch ic (Group g r) (cp, s) =
     map (\<lambda>(cp', s'). (cp'(g \<mapsto> take (length s - length s') s), s')) (rmatch ic r (cp, s))"

text \<open>
  \<open>exec\<close> of a pattern with the \<open>g\<close> flag: the leftmost match at or after \<open>lastIndex\<close>;
  the caller stores \<open>endIndex\<close> as the new \<open>lastIndex\<close>. \<open>test\<close> of a pattern without
  \<open>g\<close> searches from the start.
\<close>

record jsmatch =
  index :: nat
  endIndex :: nat
  groups :: captures

definition matchAt :: "bool \<Rightarrow> regex \<Rightarrow> nat \<Rightarrow> jsstring \<Rightarrow> jsmatch option" where
  "matchAt ic r i s =
     (case rmatch ic r (Map.empty, s) of
        [] \<Rightarrow> None
      | (cp, s') # _ \<Rightarrow> Some \<lparr>index = i, endIndex = i + (length s - length s'), groups = cp\<rparr>)"

fun search :: "bool \<Rightarrow> regex \<Rightarrow> nat \<Rightarrow> jsstring \<Rightarrow> jsmatch option" where
  "search ic r i [] = matchAt ic r i []"
| "search ic r i (c # cs) =
     (case matchAt ic r i (c # cs) of Some m \<Rightarrow> Some m | None \<Rightarrow> search ic r (Suc i) cs)"

definition exec :: "bool \<Rightarrow> regex \<Rightarrow> jsstring \<Rightarrow> nat \<Rightarrow> jsmatch option" where
  "exec ic r str lastIndex =
     (if length str < lastIndex then None else search ic r lastIndex (drop lastIndex str))"

definition test :: "bool \<Rightarrow> regex \<Rightarrow> jsstring \<Rightarrow> bool" where
  "test ic r str = (search ic r 0 str \<noteq> None)"

definition seq :: "regex list \<Rightarrow> regex" where
  "seq rs = foldr Cat rs Eps"

definition lit :: "string \<Rightarrow> regex" where
  "lit s = seq (map (\<lambda>c. Atom (Ch (of_char c))) s)"

text \<open>
  \<open>minLen\<close> bounds the length of a match from below; \<open>participates g r\<close> says that every
  match of \<open>r\<close> sets group \<open>g\<close>.
\<close>

fun minLen :: "regex \<Rightarrow> nat" where
  "minLen Eps = 0"
| "minLen (Atom k) = 1"
| "minLen (Cat r r') = minLen r + minLen r'"
| "minLen (Opt r) = 0"
| "minLen (Plus k) = 1"
| "minLen (Star k) = 0"
| "minLen (LazyStar k) = 0"
| "minLen (Group g r) = minLen r"

fun participates :: "nat \<Rightarrow> regex \<Rightarrow> bool" where
  "participates g (Cat r r') = (participates g r \<or> participates g r')"
| "participates g (Group g' r) = (g = g' \<or> participates g r)"
| "participates g r = False"

subsection \<open>Progress and captures of a match\<close>

lemma greedy_length: "s' \<in> set (greedy p s) \<Longrightarrow> length s' \<le> length s"
  by (induction s) (auto split: if_splits)

lemma lazy_length: "s' \<in> set (lazy p s) \<Longrightarrow> length s' \<le> length s"
  by (induction s) (auto split: if_splits)

lemma rmatch_length:
  "(cp', s') \<in> set (rmatch ic r (cp, s)) \<Longrightarrow> length s' + minLen r \<le> length s"
proof (induction r arbitrary: cp s cp' s')
  case (Cat r1 r2)
  from Cat.prems obtain cp1 s1 where
    a: "(cp1, s1) \<in> set (rmatch ic r1 (cp, s))" and b: "(cp', s') \<in> set (rmatch ic r2 (cp1, s1))"
    by auto
  from Cat.IH(1)[OF a] Cat.IH(2)[OF b] show ?case by simp
next
  case (Opt r)
  then show ?case by fastforce
next
  case (Plus k)
  then show ?case by (auto split: list.splits if_splits dest: greedy_length)
next
  case (Star k)
  then show ?case by (auto dest: greedy_length)
next
  case (LazyStar k)
  then show ?case by (auto dest: lazy_length)
next
  case (Group g r)
  then show ?case by fastforce
qed (auto split: list.splits if_splits)

lemma rmatch_keeps:
  "(cp', s') \<in> set (rmatch ic r (cp, s)) \<Longrightarrow> cp g \<noteq> None \<Longrightarrow> cp' g \<noteq> None"
proof (induction r arbitrary: cp s cp' s')
  case (Cat r1 r2)
  from Cat.prems obtain cp1 s1 where
    a: "(cp1, s1) \<in> set (rmatch ic r1 (cp, s))" and b: "(cp', s') \<in> set (rmatch ic r2 (cp1, s1))"
    by auto
  from Cat.IH(1)[OF a Cat.prems(2)] Cat.IH(2)[OF b] show ?case by simp
next
  case (Opt r)
  then show ?case by fastforce
next
  case (Group g' r)
  then show ?case by fastforce
qed (auto split: list.splits if_splits)

lemma rmatch_participates:
  "(cp', s') \<in> set (rmatch ic r (cp, s)) \<Longrightarrow> participates g r \<Longrightarrow> cp' g \<noteq> None"
proof (induction r arbitrary: cp s cp' s')
  case (Cat r1 r2)
  from Cat.prems obtain cp1 s1 where
    a: "(cp1, s1) \<in> set (rmatch ic r1 (cp, s))" and b: "(cp', s') \<in> set (rmatch ic r2 (cp1, s1))"
    by auto
  show ?case
  proof (cases "participates g r2")
    case True
    with Cat.IH(2)[OF b] show ?thesis by simp
  next
    case False
    with Cat.prems(2) have "participates g r1" by simp
    with Cat.IH(1)[OF a] have "cp1 g \<noteq> None" by simp
    with rmatch_keeps[OF b] show ?thesis by simp
  qed
next
  case (Group g' r)
  then show ?case by fastforce
qed auto

lemma matchAt_Some:
  assumes "matchAt ic r i s = Some m"
  shows "index m = i \<and> i + minLen r \<le> endIndex m \<and> endIndex m \<le> i + length s
     \<and> (participates g r \<longrightarrow> groups m g \<noteq> None)"
proof -
  from assms obtain cp s' rest where
    r: "rmatch ic r (Map.empty, s) = (cp, s') # rest"
    and m: "m = \<lparr>index = i, endIndex = i + (length s - length s'), groups = cp\<rparr>"
    by (auto simp add: matchAt_def split: list.splits)
  from r have mem: "(cp, s') \<in> set (rmatch ic r (Map.empty, s))" by simp
  from rmatch_length[OF mem] rmatch_participates[OF mem, of g] m
  show ?thesis by simp
qed

lemma search_Some:
  "search ic r i s = Some m \<Longrightarrow>
     i \<le> index m \<and> index m + minLen r \<le> endIndex m \<and> endIndex m \<le> i + length s
     \<and> (participates g r \<longrightarrow> groups m g \<noteq> None)"
proof (induction s arbitrary: i)
  case Nil
  then show ?case using matchAt_Some[of ic r i "[]" m g] by simp
next
  case (Cons c cs)
  show ?case
  proof (cases "matchAt ic r i (c # cs)")
    case None
    with Cons.prems have "search ic r (Suc i) cs = Some m" by simp
    from Cons.IH[OF this] show ?thesis by simp
  next
    case (Some m')
    with Cons.prems have "m' = m" by simp
    with Some matchAt_Some[of ic r i "c # cs" m g] show ?thesis by simp
  qed
qed

lemma exec_Some:
  assumes "exec ic r str lastIndex = Some m"
  shows "lastIndex \<le> index m" and "index m + minLen r \<le> endIndex m"
    and "endIndex m \<le> length str" and "participates g r \<Longrightarrow> groups m g \<noteq> None"
proof -
  from assms have le: "lastIndex \<le> length str"
    and s: "search ic r lastIndex (drop lastIndex str) = Some m"
    by (auto simp add: exec_def split: if_splits)
  from search_Some[OF s, of g] le
  show "lastIndex \<le> index m" "index m + minLen r \<le> endIndex m" "endIndex m \<le> length str"
    "participates g r \<Longrightarrow> groups m g \<noteq> None"
    by simp_all
qed

section \<open>Quota tracker (server/models/User.js)\<close>

text \<open>
  A \<open>Date\<close> is read by the quota code only through \<open>getMonth()\<close> and \<open>getFullYear()\<close>;
  the rest of the instant is kept in \<open>withinMonth\<close>.
\<close>

record jsDate =
  getFullYear :: int
  getMonth :: nat
  withinMonth :: nat

record apiUsage =
  totalQueries :: int
  monthlyQueries :: int
  lastResetDate :: jsDate

record subscription =
  plan :: string
  queryLimit :: int

record user =
  apiUsage :: apiUsage
  subscription :: subscription

text \<open>
  \<open>resetMonthlyQueries\<close>, \<open>canMakeQuery\<close> and \<open>incrementQueryCount\<close> of \<open>userSchema\<close>.
  \<open>now\<close> is the value of \<open>new Date()\<close>. \<open>canMakeQuery\<close> returns its answer and the
  user document as the call leaves it; \<open>incrementQueryCount\<close> returns the document it
  saves.
\<close>

definition resetMonthlyQueries :: "jsDate \<Rightarrow> user \<Rightarrow> user" where
  "resetMonthlyQueries now u =
     (let lastReset = lastResetDate (apiUsage u) in
      if getMonth now \<noteq> getMonth lastReset \<or> getFullYear now \<noteq> getFullYear lastReset
      then u\<lparr>apiUsage := (apiUsage u)\<lparr>monthlyQueries := 0, lastResetDate := now\<rparr>\<rparr>
      else u)"

definition canMakeQuery :: "jsDate \<Rightarrow> user \<Rightarrow> bool \<times> user" where
  "canMakeQuery now u =
     (let u' = resetMonthlyQueries now u in
      (monthlyQueries (apiUsage u') < queryLimit (subscription u'), u'))"

definition incrementQueryCount :: "user \<Rightarrow> user" where
  "incrementQueryCount u =
     u\<lparr>apiUsage := (apiUsage u)\<lparr>totalQueries := totalQueries (apiUsage u) + 1,
                                 monthlyQueries := monthlyQueries (apiUsage u) + 1\<rparr>\<rparr>"

definition sameMonth :: "jsDate \<Rightarrow> jsDate \<Rightarrow> bool" where
  "sameMonth a b = (getMonth a = getMonth b \<and> getFullYear a = getFullYear b)"

text \<open>
  A history of calls on one user document: admission checks, each at its own date, and
  recorded usages.
\<close>

datatype quotaCall = Admit jsDate | Record

fun history :: "quotaCall list \<Rightarrow> user \<Rightarrow> user" where
  "history [] u = u"
| "history (Admit now # calls) u = history calls (snd (canMakeQuery now u))"
| "history (Record # calls) u = history calls (incrementQueryCount u)"

section \<open>Response parser (server/services/aiService.js, parseResponse)\<close>

record codeBlock =
  cbLanguage :: jsstring
  cbCode :: jsstring

record codeSection =
  language :: jsstring
  snippet :: jsstring
  optimizedVersion :: jsstring

record step =
  stepNumber :: int
  description :: jsstring

record sections =
  explanation :: jsstring
  code :: codeSection
  steps :: "step list"
  complexity :: jsstring

text \<open>
  \<open>codeBlockRegex\<close> is \<^verbatim>\<open>/```(\w+)?\n([\s\S]*?)```/g\<close> and \<open>stepRegex\<close> is
  \<^verbatim>\<open>/(\d+)\.\s+([^\n]+)/g\<close>.
\<close>

definition codeBlockRegex :: regex where
  "codeBlockRegex =
     seq [lit ''```'', Opt (Group 1 (Plus Word)), Atom (Ch 0x0A),
          Group 2 (LazyStar (Either Space (Neg Space))), lit ''```'']"

definition stepRegex :: regex where
  "stepRegex =
     seq [Group 1 (Plus Digit), Atom (Ch 0x2E), Plus Space, Group 2 (Plus (Neg (Ch 0x0A)))]"

lemma minLen_codeBlockRegex: "minLen codeBlockRegex = 7"
  by (simp add: codeBlockRegex_def seq_def lit_def)

lemma minLen_stepRegex: "minLen stepRegex = 4"
  by (simp add: stepRegex_def seq_def)

lemma participates_codeBlockRegex: "participates 2 codeBlockRegex"
  by (simp add: codeBlockRegex_def seq_def lit_def)

lemma participates_stepRegex: "participates 2 stepRegex"
  by (simp add: stepRegex_def seq_def)

text \<open>
  The body of the first loop pushes \<open>{language: match[1] || 'text', code: match[2].trim()}\<close>;
  calling \<open>trim\<close> on a group that did not take part would throw a \<open>TypeError\<close>. The loop
  runs \<open>exec\<close> until it answers \<open>null\<close>; it ends because every match is at least seven code
  units long.
\<close>

definition undefinedTrim :: jsError where
  "undefinedTrim = TypeError (js ''Cannot read properties of undefined (reading trim)'')"

definition pushCodeBlock :: "jsmatch \<Rightarrow> jsError + codeBlock" where
  "pushCodeBlock m =
     (case groups m 2 of
        None \<Rightarrow> Inl undefinedTrim
      | Some body \<Rightarrow>
          Inr \<lparr>cbLanguage = (case groups m 1 of
                               None \<Rightarrow> js ''text''
                             | Some tag \<Rightarrow> if tag = [] then js ''text'' else tag),
               cbCode = trim body\<rparr>)"

function codeBlocksLoop :: "jsstring \<Rightarrow> nat \<Rightarrow> codeBlock list \<Rightarrow> jsError + codeBlock list" where
  "codeBlocksLoop rawResponse lastIndex codeBlocks =
     (case exec False codeBlockRegex rawResponse lastIndex of
        None \<Rightarrow> Inr codeBlocks
      | Some m \<Rightarrow>
          (case pushCodeBlock m of
             Inl e \<Rightarrow> Inl e
           | Inr b \<Rightarrow> codeBlocksLoop rawResponse (endIndex m) (codeBlocks @ [b])))"
  by pat_completeness auto
termination
proof (relation "measure (\<lambda>(rawResponse, lastIndex, codeBlocks). Suc (length rawResponse) - lastIndex)")
  fix rawResponse :: jsstring and lastIndex :: nat and codeBlocks :: "codeBlock list" and m b
  assume "exec False codeBlockRegex rawResponse lastIndex = Some m"
  from exec_Some(1,2,3)[OF this]
  show "((rawResponse, endIndex m, codeBlocks @ [b]), (rawResponse, lastIndex, codeBlocks))
      \<in> measure (\<lambda>(rawResponse, lastIndex, codeBlocks). Suc (length rawResponse) - lastIndex)"
    by (simp add: minLen_codeBlockRegex)
qed simp

text \<open>
  The second loop pushes \<open>{stepNumber: stepNumber++, description: stepMatch[2].trim()}\<close>.
\<close>

definition pushStep :: "jsmatch \<Rightarrow> int \<Rightarrow> jsError + step" where
  "pushStep stepMatch counter =
     (case groups stepMatch 2 of
        None \<Rightarrow> Inl undefinedTrim
      | Some text \<Rightarrow> Inr \<lparr>stepNumber = counter, description = trim text\<rparr>)"

function stepsLoop :: "jsstring \<Rightarrow> nat \<Rightarrow> step list \<Rightarrow> int \<Rightarrow> jsError + step list" where
  "stepsLoop rawResponse lastIndex found counter =
     (case exec False stepRegex rawResponse lastIndex of
        None \<Rightarrow> Inr found
      | Some stepMatch \<Rightarrow>
          (case pushStep stepMatch counter of
             Inl e \<Rightarrow> Inl e
           | Inr s \<Rightarrow> stepsLoop rawResponse (endIndex stepMatch) (found @ [s]) (counter + 1)))"
  by pat_completeness auto
termination
proof (relation "measure (\<lambda>(rawResponse, lastIndex, found, counter). Suc (length rawResponse) - lastIndex)")
  fix rawResponse :: jsstring and lastIndex :: nat and found :: "step list" and counter :: int
    and stepMatch s
  assume "exec False stepRegex rawResponse lastIndex = Some stepMatch"
  from exec_Some(1,2,3)[OF this]
  show "((rawResponse, endIndex stepMatch, found @ [s], counter + 1),
         (rawResponse, lastIndex, found, counter))
      \<in> measure (\<lambda>(rawResponse, lastIndex, found, counter). Suc (length rawResponse) - lastIndex)"
    by (simp add: minLen_stepRegex)
qed simp

text \<open>
  \<open>parseResponse\<close>: the code blocks, the steps, then the explanation from
  \<open>rawResponse.indexOf('```')\<close>.
\<close>

definition parseResponse :: "jsstring \<Rightarrow> jsError + sections" where
  "parseResponse rawResponse =
     (case codeBlocksLoop rawResponse 0 [] of
        Inl e \<Rightarrow> Inl e
      | Inr codeBlocks \<Rightarrow>
          let code0 = \<lparr>language = [], snippet = [], optimizedVersion = []\<rparr>;
              code1 =
                (if 0 < length codeBlocks
                 then let c = code0\<lparr>language := cbLanguage (codeBlocks ! 0),
                                    snippet := cbCode (codeBlocks ! 0)\<rparr>
                      in if 1 < length codeBlocks
                         then c\<lparr>optimizedVersion := cbCode (codeBlocks ! 1)\<rparr>
                         else c
                 else code0)
          in (case stepsLoop rawResponse 0 [] 1 of
                Inl e \<Rightarrow> Inl e
              | Inr found \<Rightarrow>
                  let firstCodeIndex = indexOf rawResponse (js ''```'');
                      explanationText =
                        (if 0 < firstCodeIndex
                         then trim (take (nat firstCodeIndex) rawResponse)
                         else trim (join 0x0A (take 3 (split 0x0A rawResponse))))
                  in Inr \<lparr>explanation = explanationText, code = code1, steps = found,
                          complexity = []\<rparr>))"

declare codeBlocksLoop.simps [simp del] stepsLoop.simps [simp del]

text \<open>
  For stating what the second loop collects: \<open>stepTexts\<close> lists the trimmed second groups of
  the successive matches of \<open>stepRegex\<close>, \<open>numbered\<close> numbers a list of descriptions, and
  \<open>occursIn needle s\<close> says that \<open>needle\<close> occurs in \<open>s\<close>. \<open>fence\<close> is the
  triple-backtick marker.
\<close>

function stepTexts :: "jsstring \<Rightarrow> nat \<Rightarrow> jsstring list" where
  "stepTexts rawResponse lastIndex =
     (case exec False stepRegex rawResponse lastIndex of
        None \<Rightarrow> []
      | Some stepMatch \<Rightarrow>
          (case groups stepMatch 2 of
             None \<Rightarrow> []
           | Some text \<Rightarrow> trim text # stepTexts rawResponse (endIndex stepMatch)))"
  by pat_completeness auto
termination
proof (relation "measure (\<lambda>(rawResponse, lastIndex). Suc (length rawResponse) - lastIndex)")
  fix rawResponse :: jsstring and lastIndex :: nat and stepMatch
  assume "exec False stepRegex rawResponse lastIndex = Some stepMatch"
  from exec_Some(1,2,3)[OF this]
  show "((rawResponse, endIndex stepMatch), (rawResponse, lastIndex))
      \<in> measure (\<lambda>(rawResponse, lastIndex). Suc (length rawResponse) - lastIndex)"
    by (simp add: minLen_stepRegex)
qed simp

declare stepTexts.simps [simp del]

fun numbered :: "int \<Rightarrow> jsstring list \<Rightarrow> step list" where
  "numbered n [] = []"
| "numbered n (d # ds) = \<lparr>stepNumber = n, description = d\<rparr> # numbered (n + 1) ds"

fun occursIn :: "jsstring \<Rightarrow> jsstring \<Rightarrow> bool" where
  "occursIn needle [] = (needle = [])"
| "occursIn needle (c # cs) = (take (length needle) (c # cs) = needle \<or> occursIn needle cs)"











section \<open>Solution generator (server/services/aiService.js, generateSolution)\<close>

text \<open>
  The fields of a request body, each possibly \<open>undefined\<close>. The same object is what the route
  hands to \<open>generateSolution\<close>. A provider is taken as the function from that object to
  its answer or its failure: the prompts are a fixed function of the object. \<open>anthropic\<close> is
  \<open>None\<close> when no key is configured. \<open>latency\<close> is the measured \<open>processingTime\<close>.
\<close>

record reqBody =
  title :: "jsstring option"
  bodyDescription :: "jsstring option"
  category :: "jsstring option"
  bodyLanguage :: "jsstring option"
  difficulty :: "jsstring option"
  tags :: "jsstring list option"

record tokenUsage =
  prompt :: int
  completion :: int
  total :: int

record providerResult =
  answer :: jsstring
  model :: jsstring
  usage :: tokenUsage
  elapsed :: int

record aiResult =
  resAnswer :: jsstring
  resExplanation :: jsstring
  resCode :: codeSection
  resSteps :: "step list"
  resAiModel :: jsstring
  resTokenUsage :: tokenUsage
  resProcessingTime :: int

record completion =
  content :: jsstring
  inputTokens :: int
  outputTokens :: int
  totalTokens :: int
  latency :: int

text \<open>
  The remote executor (Judge0): \<open>axiosPost\<close> answers a submission with a token,
  \<open>axiosGet token k\<close> is the answer to the \<open>k\<close>-th fetch of that token (the first is number 0).
  A property read of \<open>this.languageIds\<close> yields a language id, or a member inherited from
  \<open>Object.prototype\<close>, or \<open>undefined\<close>.
\<close>

record rawResult =
  status_id :: int
  stdout :: "jsstring option"
  stderr :: "jsstring option"
  compile_output :: "jsstring option"
  time :: "jsstring option"
  memory :: "int option"
  exit_code :: "int option"

datatype langProp = LangId nat | Inherited

record submission =
  source_code :: jsstring
  language_id :: langProp
  stdin :: jsstring
  cpu_time_limit :: nat
  memory_limit :: nat

record env =
  openai :: "reqBody \<Rightarrow> jsError + completion"
  anthropic :: "(reqBody \<Rightarrow> jsError + completion) option"
  apiKey :: "jsstring option"
  axiosPost :: "submission \<Rightarrow> jsError + jsstring"
  axiosGet :: "jsstring \<Rightarrow> nat \<Rightarrow> jsError + rawResult"

datatype event =
    OpenAICall
  | AnthropicCall
  | Submit submission
  | GetResult jsstring
  | Delay nat

definition generateSolutionGPT :: "env \<Rightarrow> reqBody \<Rightarrow> (jsError + providerResult) \<times> event list" where
  "generateSolutionGPT e problem =
     (case openai e problem of
        Inl err \<Rightarrow> (Inl (Error (js ''AI service error: '' @ message err)), [OpenAICall])
      | Inr response \<Rightarrow>
          (Inr \<lparr>answer = content response, model = js ''gpt-4'',
                usage = \<lparr>prompt = inputTokens response, completion = outputTokens response,
                          total = totalTokens response\<rparr>,
                elapsed = latency response\<rparr>,
           [OpenAICall]))"

definition generateSolutionClaude :: "env \<Rightarrow> reqBody \<Rightarrow> (jsError + providerResult) \<times> event list" where
  "generateSolutionClaude e problem =
     (case anthropic e of
        None \<Rightarrow> (Inl (Error (js ''Anthropic API key not configured'')), [])
      | Some client \<Rightarrow>
          (case client problem of
             Inl err \<Rightarrow> (Inl (Error (js ''AI service error: '' @ message err)), [AnthropicCall])
           | Inr response \<Rightarrow>
               (Inr \<lparr>answer = content response, model = js ''claude-3'',
                     usage = \<lparr>prompt = inputTokens response, completion = outputTokens response,
                               total = inputTokens response + outputTokens response\<rparr>,
                     elapsed = latency response\<rparr>,
                [AnthropicCall])))"

text \<open>
  \<open>generateSolution(problem, aiModel = 'gpt-4')\<close>: \<open>aiModelArg = None\<close> is a call without
  the second argument.
\<close>

definition generateSolution ::
  "env \<Rightarrow> reqBody \<Rightarrow> jsstring option \<Rightarrow> (jsError + aiResult) \<times> event list" where
  "generateSolution e problem aiModelArg =
     (let aiModel = (case aiModelArg of None \<Rightarrow> js ''gpt-4'' | Some m \<Rightarrow> m);
          (outcome, events) =
            (if aiModel = js ''claude-3'' \<or> aiModel = js ''claude-2''
             then generateSolutionClaude e problem
             else generateSolutionGPT e problem)
      in case outcome of
           Inl err \<Rightarrow> (Inl err, events)
         | Inr result \<Rightarrow>
             (case parseResponse (answer result) of
                Inl err \<Rightarrow> (Inl err, events)
              | Inr parsed \<Rightarrow>
                  (Inr \<lparr>resAnswer = answer result, resExplanation = explanation parsed,
                        resCode = code parsed, resSteps = steps parsed,
                        resAiModel = model result, resTokenUsage = usage result,
                        resProcessingTime = elapsed result\<rparr>,
                   events)))"

section \<open>Execution client (server/services/codeExecutor.js)\<close>

definition ownLanguageIds :: "(string \<times> nat) list" where
  "ownLanguageIds =
     [(''javascript'', 63), (''python'', 71), (''java'', 62), (''cpp'', 54), (''c'', 50),
      (''csharp'', 51), (''ruby'', 72), (''go'', 60), (''rust'', 73), (''php'', 68),
      (''swift'', 83), (''kotlin'', 78), (''typescript'', 74)]"

definition objectPrototypeKeys :: "string list" where
  "objectPrototypeKeys =
     [''constructor'', ''__proto__'', ''hasOwnProperty'', ''isPrototypeOf'',
      ''propertyIsEnumerable'', ''toLocaleString'', ''toString'', ''valueOf'',
      ''__defineGetter__'', ''__defineSetter__'', ''__lookupGetter__'', ''__lookupSetter__'']"

definition languageIds :: "jsstring \<Rightarrow> langProp option" where
  "languageIds key =
     (case map_of (map (\<lambda>(k, v). (js k, v)) ownLanguageIds) key of
        Some n \<Rightarrow> Some (LangId n)
      | None \<Rightarrow> if key \<in> set (map js objectPrototypeKeys) then Some Inherited else None)"

definition getSubmissionResult :: "env \<Rightarrow> jsstring \<Rightarrow> nat \<Rightarrow> jsError + rawResult" where
  "getSubmissionResult e token k =
     (case axiosGet e token k of
        Inl err \<Rightarrow> Inl (Error (js ''Failed to get submission result: '' @ message err))
      | Inr res \<Rightarrow> Inr res)"

definition maxAttempts :: nat where
  "maxAttempts = 10"

text \<open>
  The polling loop of \<open>executeCode\<close>, entered with the first result and \<open>attempts = 0\<close>. It
  returns the last result, or the failure of a fetch, and the calls it made.
\<close>

function pollLoop ::
  "env \<Rightarrow> jsstring \<Rightarrow> rawResult \<Rightarrow> nat \<Rightarrow> (jsError + rawResult) \<times> event list" where
  "pollLoop e token result attempts =
     (if status_id result \<le> 2 \<and> attempts < maxAttempts
      then (case getSubmissionResult e token (Suc attempts) of
              Inl err \<Rightarrow> (Inl err, [Delay 1000, GetResult token])
            | Inr result' \<Rightarrow>
                (let (outcome, events) = pollLoop e token result' (Suc attempts)
                 in (outcome, Delay 1000 # GetResult token # events)))
      else (Inr result, []))"
  by pat_completeness auto
termination
  by (relation "measure (\<lambda>(e, token, result, attempts). maxAttempts - attempts)") auto

declare pollLoop.simps [simp del]

datatype numOrStr = Num int | Str jsstring

record executionResult =
  erStatus :: jsstring
  erStatusId :: "int option"
  erOutput :: "jsstring option"
  erError :: "jsstring option"
  erTime :: "jsstring option"
  erMemory :: "numOrStr option"
  erExitCode :: "int option"

definition statusMap :: "(int \<times> string) list" where
  "statusMap =
     [(1, ''In Queue''), (2, ''Processing''), (3, ''Accepted''), (4, ''Wrong Answer''),
      (5, ''Time Limit Exceeded''), (6, ''Compilation Error''),
      (7, ''Runtime Error (SIGSEGV)''), (8, ''Runtime Error (SIGXFSZ)''),
      (9, ''Runtime Error (SIGFPE)''), (10, ''Runtime Error (SIGABRT)''),
      (11, ''Runtime Error (NZEC)''), (12, ''Runtime Error (Other)''),
      (13, ''Internal Error''), (14, ''Exec Format Error'')]"

definition formatResult :: "rawResult \<Rightarrow> executionResult" where
  "formatResult rawRes =
     \<lparr>erStatus = (case map_of statusMap (status_id rawRes) of
                    Some label \<Rightarrow> js label
                  | None \<Rightarrow> js ''Unknown''),
      erStatusId = Some (status_id rawRes),
      erOutput = Some (orElse (stdout rawRes) []),
      erError = Some (orElse (stderr rawRes) (orElse (compile_output rawRes) [])),
      erTime = Some (orElse (time rawRes) (js ''0'')),
      erMemory = Some (case memory rawRes of
                         None \<Rightarrow> Str (js ''0'')
                       | Some n \<Rightarrow> if n = 0 then Str (js ''0'') else Num n),
      erExitCode = exit_code rawRes\<rparr>"

definition executionFailed :: "jsError \<Rightarrow> jsError" where
  "executionFailed err = Error (js ''Code execution failed: '' @ message err)"

text \<open>
  \<open>executeCode(code, language, input)\<close>. The missing key is thrown outside the \<open>try\<close>;
  every failure inside it is rethrown as \<open>Code execution failed: ...\<close>.
\<close>

definition executeCode ::
  "env \<Rightarrow> jsstring \<Rightarrow> jsstring \<Rightarrow> jsstring \<Rightarrow> (jsError + executionResult) \<times> event list" where
  "executeCode e code' lang input =
     (if \<not> truthy (apiKey e) then (Inl (Error (js ''Judge0 API key not configured'')), [])
      else (case languageIds (toLowerCase lang) of
              None \<Rightarrow>
                (Inl (executionFailed (Error (js ''Language '' @ [0x27] @ lang @ [0x27]
                        @ js '' not supported for execution''))), [])
            | Some languageId \<Rightarrow>
                (let request = \<lparr>source_code = code', language_id = languageId, stdin = input,
                                 cpu_time_limit = 2, memory_limit = 128000\<rparr>
                 in case axiosPost e request of
                      Inl err \<Rightarrow> (Inl (executionFailed err), [Submit request])
                    | Inr token \<Rightarrow>
                        (case getSubmissionResult e token 0 of
                           Inl err \<Rightarrow> (Inl (executionFailed err), [Submit request, GetResult token])
                         | Inr result \<Rightarrow>
                             (let (outcome, events) = pollLoop e token result 0
                              in (case outcome of
                                    Inl err \<Rightarrow> Inl (executionFailed err)
                                  | Inr final \<Rightarrow> Inr (formatResult final),
                                  Submit request # GetResult token # events))))))"

text \<open>
  \<open>validateCode(code, language)\<close> and its eight patterns, all with the \<open>i\<close> flag.
\<close>

definition dangerousPatterns :: "regex list" where
  "dangerousPatterns =
     [seq [lit ''exec'', Star Space, Atom (Ch 0x28)],
      seq [lit ''eval'', Star Space, Atom (Ch 0x28)],
      seq [lit ''system'', Star Space, Atom (Ch 0x28)],
      seq [lit ''popen'', Star Space, Atom (Ch 0x28)],
      lit ''os.system'',
      lit ''subprocess.'',
      seq [lit ''import'', Plus Space, lit ''os''],
      seq [lit ''require'', Star Space, Atom (Ch 0x28), Star Space,
           Atom (Either (Ch 0x27) (Ch 0x22)), lit ''child_process'',
           Atom (Either (Ch 0x27) (Ch 0x22)), Star Space, Atom (Ch 0x29)]]"

definition validateCode :: "jsstring option \<Rightarrow> jsstring option \<Rightarrow> jsError + bool" where
  "validateCode code' lang =
     (if \<not> truthy code' \<or> length (trim (orElse code' [])) = 0
      then Inl (Error (js ''Code cannot be empty''))
      else if \<not> truthy lang then Inl (Error (js ''Programming language must be specified''))
      else if list_ex (\<lambda>pattern. test True pattern (orElse code' [])) dangerousPatterns
      then Inl (Error (js ''Code contains potentially dangerous operations''))
      else Inr True)"

section \<open>Problem lifecycle coordinator (server/routes/problems.js, POST /api/problems)\<close>

text \<open>
  The store holds the problem and solution collections and the document of the acting user;
  an id is a position in its collection. The document of a solution keeps the whole execution
  result.
\<close>

datatype problemStatus = pending | processing | solved | failed

record problem =
  attrs :: reqBody
  status :: problemStatus
  solution :: "nat option"

record solutionDoc =
  problemRef :: nat
  aiModel :: jsstring
  solAnswer :: jsstring
  solExplanation :: jsstring
  solCode :: codeSection
  solSteps :: "step list"
  executionResult :: "executionResult option"
  solTokenUsage :: tokenUsage
  processingTime :: int

record store =
  problems :: "problem list"
  solutions :: "solutionDoc list"
  userDoc :: user

record response =
  httpStatus :: nat
  success :: bool

text \<open>
  The validators of \<open>problemSchema\<close> that \<open>Problem.create\<close> runs (\<open>title\<close> and \<open>description\<close>
  trimmed, required and bounded in length, \<open>category\<close> and \<open>difficulty\<close> in their
  enumerations) and those of \<open>solutionSchema\<close> that \<open>Solution.create\<close> runs on the
  generator's result (\<open>answer\<close> required, \<open>aiModel\<close> in its enumeration). Only a failing
  validator makes a store operation throw.
\<close>

definition categories :: "string list" where
  "categories =
     [''programming'', ''mathematics'', ''writing'', ''debugging'', ''optimization'',
      ''data-science'', ''algorithm'', ''database'', ''system-design'', ''other'']"

definition difficulties :: "string list" where
  "difficulties = [''easy'', ''medium'', ''hard'']"

definition problemValid :: "reqBody \<Rightarrow> bool" where
  "problemValid b =
     (trim (orElse (title b) []) \<noteq> [] \<and> length (trim (orElse (title b) [])) \<le> 200
      \<and> trim (orElse (bodyDescription b) []) \<noteq> []
      \<and> length (trim (orElse (bodyDescription b) [])) \<le> 5000
      \<and> orElse (category b) [] \<in> set (map js categories)
      \<and> orElse (difficulty b) (js ''medium'') \<in> set (map js difficulties))"

definition solutionValid :: "aiResult \<Rightarrow> bool" where
  "solutionValid r =
     (resAnswer r \<noteq> []
      \<and> resAiModel r \<in> set (map js [''gpt-4'', ''gpt-3.5-turbo'', ''claude-3'', ''claude-2'']))"

text \<open>
  \<open>degraded\<close> is the object the route stores when \<open>executeCode\<close> throws.
  \<open>createAndSolve\<close> is the handler, entered after \<open>checkQueryLimit\<close> with \<open>req.user\<close> as that
  middleware left it; \<open>postProblem\<close> is the route, the middleware first.
\<close>

definition degraded :: "jsError \<Rightarrow> executionResult" where
  "degraded execError =
     \<lparr>erStatus = js ''Execution Failed'', erStatusId = None, erOutput = None,
      erError = Some (message execError), erTime = None, erMemory = None, erExitCode = None\<rparr>"

definition createAndSolve ::
  "env \<Rightarrow> user \<Rightarrow> reqBody \<Rightarrow> store \<Rightarrow> store \<times> response \<times> event list" where
  "createAndSolve e reqUser body st =
     (if \<not> truthy (title body) \<or> \<not> truthy (bodyDescription body) \<or> \<not> truthy (category body)
      then (st, \<lparr>httpStatus = 400, success = False\<rparr>, [])
      else if \<not> problemValid body
      then (st, \<lparr>httpStatus = 500, success = False\<rparr>, [])
      else
        (let pid = length (problems st);
             doc = \<lparr>attrs = body\<lparr>difficulty := Some (orElse (difficulty body) (js ''medium'')),
                                   tags := Some (case tags body of None \<Rightarrow> [] | Some ts \<Rightarrow> ts)\<rparr>,
                    status = processing, solution = None\<rparr>;
             st1 = st\<lparr>problems := problems st @ [doc]\<rparr>;
             failure = (\<lambda>s. s\<lparr>problems := (problems s)[pid := doc\<lparr>status := failed\<rparr>]\<rparr>);
             (generated, events) = generateSolution e body None
         in case generated of
              Inl aiError \<Rightarrow>
                (failure st1, \<lparr>httpStatus = 500, success = False\<rparr>, events)
            | Inr aiRes \<Rightarrow>
                if \<not> solutionValid aiRes
                then (failure st1, \<lparr>httpStatus = 500, success = False\<rparr>, events)
                else
                  (let sid = length (solutions st1);
                       sol = \<lparr>problemRef = pid, aiModel = resAiModel aiRes,
                              solAnswer = resAnswer aiRes, solExplanation = resExplanation aiRes,
                              solCode = resCode aiRes, solSteps = resSteps aiRes,
                              executionResult = None, solTokenUsage = resTokenUsage aiRes,
                              processingTime = resProcessingTime aiRes\<rparr>;
                       st2 = st1\<lparr>solutions := solutions st1 @ [sol]\<rparr>;
                       (st3, events') =
                         (if snippet (resCode aiRes) \<noteq> [] \<and> truthy (bodyLanguage body)
                          then (case executeCode e (snippet (resCode aiRes))
                                       (orElse (bodyLanguage body) []) [] of
                                  (Inr result, evs) \<Rightarrow>
                                    (st2\<lparr>solutions := (solutions st2)
                                           [sid := sol\<lparr>executionResult := Some result\<rparr>]\<rparr>, evs)
                                | (Inl execError, evs) \<Rightarrow>
                                    (st2\<lparr>solutions := (solutions st2)
                                           [sid := sol\<lparr>executionResult :=
                                                        Some (degraded execError)\<rparr>]\<rparr>, evs))
                          else (st2, []));
                       st4 = st3\<lparr>problems := (problems st3)
                                  [pid := doc\<lparr>solution := Some sid, status := solved\<rparr>]\<rparr>;
                       st5 = st4\<lparr>userDoc := incrementQueryCount reqUser\<rparr>
                   in (st5, \<lparr>httpStatus = 201, success = True\<rparr>,
                       events @ events'))))"

definition postProblem ::
  "env \<Rightarrow> jsDate \<Rightarrow> reqBody \<Rightarrow> store \<Rightarrow> store \<times> response \<times> event list" where
  "postProblem e now body st =
     (let (admitted, reqUser) = canMakeQuery now (userDoc st)
      in if \<not> admitted
         then (st, \<lparr>httpStatus = 429, success = False\<rparr>, [])
         else createAndSolve e reqUser body st)"

text \<open>
  The documents the handler writes: the problem with a status and a solution reference, the
  solution with an execution result.
\<close>

definition created :: "reqBody \<Rightarrow> problemStatus \<Rightarrow> nat option \<Rightarrow> problem" where
  "created body st sol =
     \<lparr>attrs = body\<lparr>difficulty := Some (orElse (difficulty body) (js ''medium'')),
                    tags := Some (case tags body of None \<Rightarrow> [] | Some ts \<Rightarrow> ts)\<rparr>,
      status = st, solution = sol\<rparr>"

definition stored :: "nat \<Rightarrow> aiResult \<Rightarrow> executionResult option \<Rightarrow> solutionDoc" where
  "stored pid aiRes res =
     \<lparr>problemRef = pid, aiModel = resAiModel aiRes, solAnswer = resAnswer aiRes,
      solExplanation = resExplanation aiRes, solCode = resCode aiRes,
      solSteps = resSteps aiRes, executionResult = res,
      solTokenUsage = resTokenUsage aiRes, processingTime = resProcessingTime aiRes\<rparr>"

definition isGetResult :: "event \<Rightarrow> bool" where
  "isGetResult call = (case call of GetResult token \<Rightarrow> True | _ \<Rightarrow> False)"

section \<open>Inputs for the concrete checks\<close>

text \<open>
  Two dates in different months, a user with an empty window, an empty store and a request
  body; raw answers for the parser; and remote services that stay busy (\<open>busyEnv\<close>, whose
  provider fails), accept (\<open>acceptingEnv\<close>, \<open>trustingEnv\<close>) or refuse the connection
  (\<open>flakyEnv\<close>, whose secondary provider is configured too).
\<close>

definition march :: jsDate where
  "march = \<lparr>getFullYear = 2024, getMonth = 2, withinMonth = 5\<rparr>"

definition april :: jsDate where
  "april = \<lparr>getFullYear = 2024, getMonth = 3, withinMonth = 0\<rparr>"

definition freshUser :: "int \<Rightarrow> jsDate \<Rightarrow> user" where
  "freshUser lim d =
     \<lparr>apiUsage = \<lparr>totalQueries = 0, monthlyQueries = 0, lastResetDate = d\<rparr>,
      subscription = \<lparr>plan = ''free'', queryLimit = lim\<rparr>\<rparr>"

definition emptyStore :: store where
  "emptyStore = \<lparr>problems = [], solutions = [], userDoc = freshUser 3 march\<rparr>"

definition sumArray :: reqBody where
  "sumArray = \<lparr>title = Some (js ''Sum array''), bodyDescription = Some (js ''Add the numbers''),
                category = Some (js ''programming''), bodyLanguage = Some (js ''python''),
                difficulty = None, tags = None\<rparr>"

definition oneBlock :: jsstring where
  "oneBlock =
     js ''Intro.'' @ [0x0A] @ js ''```py'' @ [0x0A] @ js ''  x=1 '' @ [0x0A] @ js ''```''
     @ [0x0A] @ js ''Bye.''"



definition renumbered :: jsstring where
  "renumbered =
     js ''Plan:'' @ [0x0A] @ js ''7. seven'' @ [0x0A] @ js ''3.  three '' @ [0x0A]
     @ js ''10. ten''"

definition plain :: jsstring where
  "plain = js ''one'' @ [0x0A] @ js ''two'' @ [0x0A] @ js ''three'' @ [0x0A] @ js ''four''"

definition unclosed :: jsstring where
  "unclosed = js ''Use ``` here''"

definition leading :: jsstring where
  "leading = js ''```js'' @ [0x0A] @ js ''f()'' @ [0x0A] @ js ''```'' @ [0x0A] @ js ''Done.''"

definition rmrf :: jsstring where
  "rmrf = js ''os.system('rm -rf /')''"

definition pythonAnswer :: jsstring where
  "pythonAnswer =
     js ''Add them up.'' @ [0x0A] @ js ''1. Start at zero'' @ [0x0A] @ js ''2. Add each''
     @ [0x0A] @ js ''3. Return'' @ [0x0A] @ js ''```python'' @ [0x0A]
     @ js ''print(sum([1,2]))'' @ [0x0A] @ js ''```''"

definition dangerousAnswer :: jsstring where
  "dangerousAnswer =
     js ''Clean up.'' @ [0x0A] @ js ''```python'' @ [0x0A] @ rmrf @ [0x0A] @ js ''```''"

definition busyResult :: rawResult where
  "busyResult = \<lparr>status_id = 2, stdout = None, stderr = None, compile_output = None,
                  time = None, memory = None, exit_code = None\<rparr>"

definition acceptedResult :: rawResult where
  "acceptedResult = \<lparr>status_id = 3, stdout = Some (js ''ok''), stderr = None,
                      compile_output = None, time = Some (js ''0.01''), memory = Some 3200,
                      exit_code = Some 0\<rparr>"

definition noCompletion :: "reqBody \<Rightarrow> jsError + completion" where
  "noCompletion b = Inl (Error (js ''timeout''))"

definition answering :: "jsstring \<Rightarrow> reqBody \<Rightarrow> jsError + completion" where
  "answering reply b =
     Inr \<lparr>content = reply, inputTokens = 10, outputTokens = 20, totalTokens = 30, latency = 5\<rparr>"

definition refusing :: "submission \<Rightarrow> jsError + jsstring" where
  "refusing request = Inl (Error (js ''ECONNREFUSED''))"

definition busyEnv :: env where
  "busyEnv = \<lparr>openai = noCompletion, anthropic = None, apiKey = Some (js ''key''),
              axiosPost = (\<lambda>request. Inr (js ''tok'')),
              axiosGet = (\<lambda>token k. Inr busyResult)\<rparr>"

definition acceptingEnv :: env where
  "acceptingEnv = \<lparr>openai = noCompletion, anthropic = None, apiKey = Some (js ''key''),
              axiosPost = (\<lambda>request. Inr (js ''tok'')),
              axiosGet = (\<lambda>token k. Inr acceptedResult)\<rparr>"

definition flakyEnv :: env where
  "flakyEnv = \<lparr>openai = answering pythonAnswer, anthropic = Some (answering (js ''hello'')),
               apiKey = Some (js ''key''), axiosPost = refusing,
               axiosGet = (\<lambda>token k. Inr busyResult)\<rparr>"

definition trustingEnv :: env where
  "trustingEnv = \<lparr>openai = answering dangerousAnswer, anthropic = None,
                  apiKey = Some (js ''key''), axiosPost = (\<lambda>request. Inr (js ''tok'')),
                  axiosGet = (\<lambda>token k. Inr acceptedResult)\<rparr>"

definition generatedSum :: aiResult where
  "generatedSum =
     \<lparr>resAnswer = pythonAnswer,
      resExplanation = js ''Add them up.'' @ [0x0A] @ js ''1. Start at zero'' @ [0x0A]
        @ js ''2. Add each'' @ [0x0A] @ js ''3. Return'',
      resCode = \<lparr>language = js ''python'', snippet = js ''print(sum([1,2]))'',
                 optimizedVersion = []\<rparr>,
      resSteps = [\<lparr>stepNumber = 1, description = js ''Start at zero''\<rparr>,
                  \<lparr>stepNumber = 2, description = js ''Add each''\<rparr>,
                  \<lparr>stepNumber = 3, description = js ''Return''\<rparr>],
      resAiModel = js ''gpt-4'',
      resTokenUsage = \<lparr>prompt = 10, completion = 20, total = 30\<rparr>,
      resProcessingTime = 5\<rparr>"

lemmas string_eval = js_def isWhiteSpace_def isDigit_def isWordChar_def canonicalize_def trim_def
  indexOf_def matchAt_def exec_def test_def seq_def lit_def codeBlockRegex_def stepRegex_def

lemmas parser_eval = parseResponse_def codeBlocksLoop.simps stepsLoop.simps pushCodeBlock_def
  pushStep_def string_eval

lemmas executor_eval = string_eval truthy_def orElse_def toLowerCase_def ownLanguageIds_def objectPrototypeKeys_def
  languageIds_def getSubmissionResult_def maxAttempts_def statusMap_def formatResult_def
  executionFailed_def executeCode_def dangerousPatterns_def validateCode_def

section \<open>Quota admission\<close>

lemma incrementQueryCount_monthly:
  "monthlyQueries (apiUsage (incrementQueryCount u)) = monthlyQueries (apiUsage u) + 1"
  by (simp add: incrementQueryCount_def)

lemma resetMonthlyQueries_nonneg:
  "0 \<le> monthlyQueries (apiUsage u) \<Longrightarrow> 0 \<le> monthlyQueries (apiUsage (resetMonthlyQueries now u))"
  by (simp add: resetMonthlyQueries_def Let_def)

lemma history_keeps:
  "0 \<le> monthlyQueries (apiUsage u) \<Longrightarrow>
     0 \<le> monthlyQueries (apiUsage (history calls u))
     \<and> subscription (history calls u) = subscription u"
proof (induction calls u rule: history.induct)
  case (1 u)
  then show ?case by simp
next
  case (2 now calls u)
  have "0 \<le> monthlyQueries (apiUsage (snd (canMakeQuery now u)))"
    and "subscription (snd (canMakeQuery now u)) = subscription u"
    using "2.prems" by (simp_all add: canMakeQuery_def resetMonthlyQueries_def Let_def)
  with "2.IH" show ?case by simp
next
  case (3 calls u)
  have "0 \<le> monthlyQueries (apiUsage (incrementQueryCount u))"
    and "subscription (incrementQueryCount u) = subscription u"
    using "3.prems" by (simp_all add: incrementQueryCount_def)
  with "3.IH" show ?case by simp
qed

text \<open>
  Claim C2. \<open>canMakeQuery\<close> first performs the lazy reset (when the month or the year of
  \<open>now\<close> differs from the stored reset date, the window counter becomes 0 and the reset date
  becomes \<open>now\<close>) and then answers whether the window counter is strictly below the limit.
  With a limit of 3, a window counter starting at 0 and three \<open>incrementQueryCount\<close> calls
  in the month of the stored reset date, the next \<open>canMakeQuery\<close> in that month answers
  false; in another month it answers true and leaves the window counter at 0. With a limit
  of 0 and a counter that is not negative, the answer is false after every history of
  admission checks and recorded usages.
\<close>

theorem canMakeQuery_quota:
  "canMakeQuery now u =
     (if sameMonth now (lastResetDate (apiUsage u))
      then (monthlyQueries (apiUsage u) < queryLimit (subscription u), u)
      else (0 < queryLimit (subscription u),
            u\<lparr>apiUsage := (apiUsage u)\<lparr>monthlyQueries := 0, lastResetDate := now\<rparr>\<rparr>))
   \<and> (queryLimit (subscription v) = 3 \<and> monthlyQueries (apiUsage v) = 0
        \<and> sameMonth t (lastResetDate (apiUsage v))
      \<longrightarrow> fst (canMakeQuery t (incrementQueryCount (incrementQueryCount (incrementQueryCount v))))
            = False)
   \<and> (queryLimit (subscription v) = 3 \<and> monthlyQueries (apiUsage v) = 0
        \<and> \<not> sameMonth t' (lastResetDate (apiUsage v))
      \<longrightarrow> fst (canMakeQuery t' (incrementQueryCount (incrementQueryCount (incrementQueryCount v))))
            = True
          \<and> monthlyQueries (apiUsage (snd (canMakeQuery t'
               (incrementQueryCount (incrementQueryCount (incrementQueryCount v)))))) = 0)
   \<and> (queryLimit (subscription w) = 0 \<and> 0 \<le> monthlyQueries (apiUsage w)
      \<longrightarrow> fst (canMakeQuery t'' (history calls w)) = False)"
proof -
  have shape: "canMakeQuery now u =
     (if sameMonth now (lastResetDate (apiUsage u))
      then (monthlyQueries (apiUsage u) < queryLimit (subscription u), u)
      else (0 < queryLimit (subscription u),
            u\<lparr>apiUsage := (apiUsage u)\<lparr>monthlyQueries := 0, lastResetDate := now\<rparr>\<rparr>))"
    for now u
    by (simp add: canMakeQuery_def resetMonthlyQueries_def sameMonth_def Let_def)
  have three: "monthlyQueries (apiUsage (incrementQueryCount (incrementQueryCount
        (incrementQueryCount v)))) = monthlyQueries (apiUsage v) + 3"
    and kept: "lastResetDate (apiUsage (incrementQueryCount (incrementQueryCount
        (incrementQueryCount v)))) = lastResetDate (apiUsage v)"
      "subscription (incrementQueryCount (incrementQueryCount (incrementQueryCount v)))
        = subscription v"
    by (simp_all add: incrementQueryCount_def)
  have full: "fst (canMakeQuery t (incrementQueryCount (incrementQueryCount
        (incrementQueryCount v)))) = False"
    if "queryLimit (subscription v) = 3" "monthlyQueries (apiUsage v) = 0"
      "sameMonth t (lastResetDate (apiUsage v))"
    using that three kept by (simp add: shape)
  have rolled: "fst (canMakeQuery t' (incrementQueryCount (incrementQueryCount
        (incrementQueryCount v)))) = True
      \<and> monthlyQueries (apiUsage (snd (canMakeQuery t'
               (incrementQueryCount (incrementQueryCount (incrementQueryCount v)))))) = 0"
    if "queryLimit (subscription v) = 3" "monthlyQueries (apiUsage v) = 0"
      "\<not> sameMonth t' (lastResetDate (apiUsage v))"
    using that three kept by (simp add: shape)
  have never: "fst (canMakeQuery t'' (history calls w)) = False"
    if "queryLimit (subscription w) = 0" "0 \<le> monthlyQueries (apiUsage w)"
    using history_keeps[OF that(2), of calls] that(1) by (simp add: shape)
  from shape[of now u] full rolled never show ?thesis by blast
qed

theorem canMakeQuery_quota_witness:
  "queryLimit (subscription (freshUser 3 march)) = 3
   \<and> monthlyQueries (apiUsage (freshUser 3 march)) = 0
   \<and> sameMonth march (lastResetDate (apiUsage (freshUser 3 march)))
   \<and> \<not> sameMonth april (lastResetDate (apiUsage (freshUser 3 march)))
   \<and> queryLimit (subscription (freshUser 0 march)) = 0
   \<and> 0 \<le> monthlyQueries (apiUsage (freshUser 0 march))
   \<and> fst (canMakeQuery march (incrementQueryCount (incrementQueryCount
            (incrementQueryCount (freshUser 3 march))))) = False
   \<and> fst (canMakeQuery april (incrementQueryCount (incrementQueryCount
            (incrementQueryCount (freshUser 3 march))))) = True
   \<and> monthlyQueries (apiUsage (snd (canMakeQuery april (incrementQueryCount
            (incrementQueryCount (incrementQueryCount (freshUser 3 march))))))) = 0
   \<and> fst (canMakeQuery april (history [Admit march, Record, Admit april] (freshUser 0 march)))
       = False"
  using canMakeQuery_quota [of march "freshUser 3 march" "freshUser 3 march" march april
      "freshUser 0 march" april "[Admit march, Record, Admit april]"]
  by (simp add: freshUser_def sameMonth_def march_def april_def)

section \<open>The parser\<close>

lemma pushCodeBlock_Inr:
  assumes "exec False codeBlockRegex raw li = Some m"
  shows "\<exists>body. groups m 2 = Some body \<and>
     pushCodeBlock m = Inr \<lparr>cbLanguage = (case groups m 1 of None \<Rightarrow> js ''text''
                                           | Some tag \<Rightarrow> if tag = [] then js ''text'' else tag),
                            cbCode = trim body\<rparr>"
proof -
  from exec_Some(4)[OF assms, of 2] participates_codeBlockRegex
  obtain body where "groups m 2 = Some body" by auto
  then show ?thesis by (simp add: pushCodeBlock_def)
qed

lemma codeBlocksLoop_Inr: "\<exists>bs. codeBlocksLoop raw li acc = Inr (acc @ bs)"
proof (induction raw li acc rule: codeBlocksLoop.induct)
  case (1 raw li acc)
  show ?case
  proof (cases "exec False codeBlockRegex raw li")
    case None
    then show ?thesis by (simp add: codeBlocksLoop.simps)
  next
    case (Some m)
    from pushCodeBlock_Inr[OF Some] obtain b where b: "pushCodeBlock m = Inr b" by blast
    from "1.IH"[OF Some b] obtain bs where
      "codeBlocksLoop raw (endIndex m) (acc @ [b]) = Inr ((acc @ [b]) @ bs)" by blast
    with Some b have "codeBlocksLoop raw li acc = Inr (acc @ (b # bs))"
      by (simp add: codeBlocksLoop.simps[of raw li])
    then show ?thesis by blast
  qed
qed

lemma stepsLoop_numbered:
  "stepsLoop raw li acc n = Inr (acc @ numbered n (stepTexts raw li))"
proof (induction raw li acc n rule: stepsLoop.induct)
  case (1 raw li acc n)
  show ?case
  proof (cases "exec False stepRegex raw li")
    case None
    then show ?thesis by (simp add: stepsLoop.simps stepTexts.simps)
  next
    case (Some m)
    from exec_Some(4)[OF Some, of 2] participates_stepRegex
    obtain body where t: "groups m 2 = Some body" by auto
    then have p: "pushStep m n = Inr \<lparr>stepNumber = n, description = trim body\<rparr>"
      by (simp add: pushStep_def)
    from "1.IH"[OF Some p] Some p t show ?thesis
      by (simp add: stepsLoop.simps[of raw li] stepTexts.simps[of raw li])
  qed
qed

lemma numbered_stepNumber:
  "map stepNumber (numbered n ds) = map (\<lambda>k. n + int k) [0..<length ds]"
proof (induction ds arbitrary: n)
  case Nil
  show ?case by simp
next
  case (Cons d ds)
  have "[0..<length (d # ds)] = 0 # map Suc [0..<length ds]"
    by (simp add: upt_conv_Cons map_Suc_upt del: upt_Suc)
  with Cons[of "n + 1"] show ?case by (simp add: comp_def add.assoc add.commute)
qed

lemma numbered_from_one:
  "map stepNumber (numbered 1 ds) = map int [1..<Suc (length ds)]"
proof -
  have "map int [1..<Suc (length ds)] = map int (map Suc [0..<length ds])"
    by (simp only: map_Suc_upt One_nat_def)
  also have "\<dots> = map (\<lambda>k. 1 + int k) [0..<length ds]"
    by (simp only: map_map comp_def of_nat_Suc)
  finally show ?thesis by (simp only: numbered_stepNumber)
qed

lemma numbered_description: "map description (numbered n ds) = ds"
  by (induction ds arbitrary: n) simp_all

lemma length_numbered: "length (numbered n ds) = length ds"
  by (induction ds arbitrary: n) simp_all

lemma parseResponse_Inr:
  "\<exists>bs. codeBlocksLoop raw 0 [] = Inr bs \<and>
     parseResponse raw =
       Inr \<lparr>explanation =
              (if 0 < indexOf raw (js ''```'')
               then trim (take (nat (indexOf raw (js ''```''))) raw)
               else trim (join 0x0A (take 3 (split 0x0A raw)))),
            code = (case bs of
                      [] \<Rightarrow> \<lparr>language = [], snippet = [], optimizedVersion = []\<rparr>
                    | b # bs' \<Rightarrow> \<lparr>language = cbLanguage b, snippet = cbCode b,
                         optimizedVersion = (case bs' of [] \<Rightarrow> [] | b' # _ \<Rightarrow> cbCode b')\<rparr>),
            steps = numbered 1 (stepTexts raw 0),
            complexity = []\<rparr>"
proof -
  from codeBlocksLoop_Inr[of raw 0 "[]"] obtain bs where bs: "codeBlocksLoop raw 0 [] = Inr bs"
    by auto
  show ?thesis
    using bs stepsLoop_numbered[of raw 0 "[]" 1]
    by (cases bs; cases "tl bs") (auto simp add: parseResponse_def Let_def)
qed

lemma parseResponse_empty:
  "parseResponse [] = Inr \<lparr>explanation = [],
     code = \<lparr>language = [], snippet = [], optimizedVersion = []\<rparr>, steps = [], complexity = []\<rparr>"
  by (simp add: parseResponse_def codeBlocksLoop.simps stepsLoop.simps string_eval)

subsection \<open>The pattern finds exactly the fenced blocks\<close>




























text \<open>
  Claim C7. For every raw text the step numbers of \<open>parseResponse\<close> are \<open>1, ..., n\<close> in
  order (the empty list when \<open>n = 0\<close>), and the descriptions are the trimmed second groups of
  the successive matches of \<open>stepRegex\<close> in document order: the captured integer does not
  enter the result.
\<close>

theorem parseResponse_steps_renumbered:
  "\<exists>sec. parseResponse raw = Inr sec
     \<and> map stepNumber (steps sec) = map int [1..<Suc (length (steps sec))]
     \<and> map description (steps sec) = stepTexts raw 0"
proof -
  from parseResponse_Inr[of raw] obtain sec where
    sec: "parseResponse raw = Inr sec" and s: "steps sec = numbered 1 (stepTexts raw 0)"
    by force
  from s have "map stepNumber (steps sec) = map int [1..<Suc (length (steps sec))]"
    by (simp only: numbered_from_one length_numbered)
  moreover from s have "map description (steps sec) = stepTexts raw 0"
    by (simp only: numbered_description)
  ultimately show ?thesis using sec by blast
qed

theorem parseResponse_steps_renumbered_witness:
  "parseResponse renumbered =
     Inr \<lparr>explanation = js ''Plan:'' @ [0x0A] @ js ''7. seven'' @ [0x0A] @ js ''3.  three'',
          code = \<lparr>language = [], snippet = [], optimizedVersion = []\<rparr>,
          steps = [\<lparr>stepNumber = 1, description = js ''seven''\<rparr>,
                   \<lparr>stepNumber = 2, description = js ''three''\<rparr>,
                   \<lparr>stepNumber = 3, description = js ''ten''\<rparr>],
          complexity = []\<rparr>
   \<and> stepTexts renumbered 0 = [js ''seven'', js ''three'', js ''ten'']"
  using parseResponse_steps_renumbered[of renumbered]
  by (simp add: renumbered_def parser_eval stepTexts.simps)

text \<open>
  Claim C9. \<open>parseResponse\<close> is a function of its input alone and, for every input string,
  returns a value with an explanation, a code section and steps: no loop runs forever and
  no branch throws.
\<close>

theorem parseResponse_total: "\<exists>sec. parseResponse raw = Inr sec"
proof -
  obtain blocks where "codeBlocksLoop raw 0 [] = Inr blocks"
    using codeBlocksLoop_Inr[of raw 0 "[]"] by auto
  moreover have "stepsLoop raw 0 [] 1 = Inr (numbered 1 (stepTexts raw 0))"
    using stepsLoop_numbered[of raw 0 "[]" 1] by simp
  ultimately show ?thesis by (simp add: parseResponse_def Let_def)
qed

theorem parseResponse_total_witness:
  "parseResponse [] =
     Inr \<lparr>explanation = [], code = \<lparr>language = [], snippet = [], optimizedVersion = []\<rparr>,
          steps = [], complexity = []\<rparr>
   \<and> parseResponse (js ''```'') =
     Inr \<lparr>explanation = js ''```'',
          code = \<lparr>language = [], snippet = [], optimizedVersion = []\<rparr>,
          steps = [], complexity = []\<rparr>"
  using parseResponse_total[of "[]"] parseResponse_total[of "js ''```''"]
  by (simp add: parser_eval)

subsection \<open>The explanation\<close>

lemma indexOfFrom_absent:
  "needle \<noteq> [] \<Longrightarrow> \<not> occursIn needle s \<Longrightarrow> indexOfFrom needle i s = - 1"
  by (induction s arbitrary: i) auto

lemma indexOfFrom_first:
  assumes "needle \<noteq> []" and "\<not> occursIn needle (pre @ butlast needle)"
  shows "indexOfFrom needle i (pre @ needle @ post) = int (i + length pre)"
  using assms(2)
proof (induction pre arbitrary: i)
  case Nil
  from assms(1) obtain c cs where n: "needle = c # cs" by (cases needle) auto
  then show ?case by simp
next
  case (Cons c pre)
  from assms(1) obtain front l where n: "needle = front @ [l]" by (cases needle rule: rev_cases) auto
  then have "take (length needle) ((c # pre) @ needle @ post)
      = take (length needle) ((c # pre) @ butlast needle)"
    by simp
  with Cons.prems have "take (length needle) ((c # pre) @ needle @ post) \<noteq> needle" by simp
  moreover from Cons.prems have "\<not> occursIn needle (pre @ butlast needle)" by simp
  ultimately show ?case using Cons.IH[of "Suc i"] by simp
qed

lemma parseResponse_explanation_eq:
  "\<exists>sec. parseResponse raw = Inr sec \<and>
     explanation sec = (if 0 < indexOf raw (js ''```'')
               then trim (take (nat (indexOf raw (js ''```''))) raw)
               else trim (join 0x0A (take 3 (split 0x0A raw))))"
proof -
  from parseResponse_Inr[of raw] obtain sec where
    "parseResponse raw = Inr sec"
    and "explanation sec = (if 0 < indexOf raw (js ''```'')
               then trim (take (nat (indexOf raw (js ''```''))) raw)
               else trim (join 0x0A (take 3 (split 0x0A raw))))"
    by force
  then show ?thesis by blast
qed

text \<open>
  Claim C8, as stated, fails: the text \<open>Use ``` here\<close> holds no fenced code block (the
  pattern finds none, the code section is empty), yet its explanation is \<open>Use\<close>, the text
  before the marker, and not its first three lines.
\<close>

theorem parseResponse_explanation_counterexample:
  "exec False codeBlockRegex unclosed 0 = None
   \<and> parseResponse unclosed =
       Inr \<lparr>explanation = js ''Use'',
            code = \<lparr>language = [], snippet = [], optimizedVersion = []\<rparr>,
            steps = [], complexity = []\<rparr>
   \<and> trim (join 0x0A (take 3 (split 0x0A unclosed))) = js ''Use ``` here''
   \<and> js ''Use'' \<noteq> js ''Use ``` here''"
  by (simp add: unclosed_def parser_eval)

text \<open>
  Claim C8, amended. The explanation is decided by the triple-backtick marker, not by a
  whole fenced block. When the marker does not occur in the raw text, the explanation is the
  first three lines, trimmed. When the text is \<open>pre\<close>, the first occurrence of the marker,
  and \<open>post\<close>, with \<open>pre\<close> not empty, the explanation is \<open>pre\<close>, trimmed.
\<close>

lemma parseResponse_explanation:
  "\<exists>sec. parseResponse raw = Inr sec \<and>
     (\<not> occursIn (js ''```'') raw \<longrightarrow>
        explanation sec = trim (join 0x0A (take 3 (split 0x0A raw))))
     \<and> (raw = pre @ js ''```'' @ post \<and> pre \<noteq> [] \<and> \<not> occursIn (js ''```'') (pre @ js ''``'') \<longrightarrow>
        explanation sec = trim pre)"
proof -
  from parseResponse_explanation_eq[of raw] obtain sec where
    sec: "parseResponse raw = Inr sec"
    and e: "explanation sec = (if 0 < indexOf raw (js ''```'')
               then trim (take (nat (indexOf raw (js ''```''))) raw)
               else trim (join 0x0A (take 3 (split 0x0A raw))))"
    by blast
  have ne: "js ''```'' \<noteq> []" by (simp add: js_def)
  have bl: "butlast (js ''```'') = js ''``''" by (simp add: js_def)
  have a: "explanation sec = trim (join 0x0A (take 3 (split 0x0A raw)))"
    if "\<not> occursIn (js ''```'') raw"
    using e indexOfFrom_absent[OF ne that, of 0] by (simp add: indexOf_def)
  have b: "explanation sec = trim pre"
    if "raw = pre @ js ''```'' @ post" "pre \<noteq> []" "\<not> occursIn (js ''```'') (pre @ js ''``'')"
  proof -
    from that(3) bl have "\<not> occursIn (js ''```'') (pre @ butlast (js ''```''))" by simp
    from indexOfFrom_first[OF ne this, of 0 post] that(1)
    have "indexOf raw (js ''```'') = int (length pre)" by (simp add: indexOf_def)
    with e that(1,2) show ?thesis by simp
  qed
  from sec a b show ?thesis by blast
qed

theorem parseResponse_explanation_witness:
  "\<not> occursIn (js ''```'') plain
   \<and> parseResponse plain =
       Inr \<lparr>explanation = js ''one'' @ [0x0A] @ js ''two'' @ [0x0A] @ js ''three'',
            code = \<lparr>language = [], snippet = [], optimizedVersion = []\<rparr>,
            steps = [], complexity = []\<rparr>
   \<and> oneBlock = (js ''Intro.'' @ [0x0A]) @ js ''```''
        @ (js ''py'' @ [0x0A] @ js ''  x=1 '' @ [0x0A] @ js ''```'' @ [0x0A] @ js ''Bye.'')
   \<and> js ''Intro.'' @ [0x0A] \<noteq> []
   \<and> \<not> occursIn (js ''```'') ((js ''Intro.'' @ [0x0A]) @ js ''``'')
   \<and> map_sum id explanation (parseResponse oneBlock) = Inr (trim (js ''Intro.'' @ [0x0A]))"
  using parseResponse_explanation[of plain]
    parseResponse_explanation[of oneBlock "js ''Intro.'' @ [0x0A]"
      "js ''py'' @ [0x0A] @ js ''  x=1 '' @ [0x0A] @ js ''```'' @ [0x0A] @ js ''Bye.''"]
  by (simp add: plain_def oneBlock_def parser_eval)

text \<open>
  A text that starts with the marker has \<open>indexOf\<close> 0, which the test
  \<open>firstCodeIndex > 0\<close> sends to the other branch: the explanation is then the first three
  lines, the fence included.
\<close>

lemma parseResponse_leading_fence: "parseResponse leading =
       Inr \<lparr>explanation = js ''```js'' @ [0x0A] @ js ''f()'' @ [0x0A] @ js ''```'',
            code = \<lparr>language = js ''js'', snippet = js ''f()'', optimizedVersion = []\<rparr>,
            steps = [], complexity = []\<rparr>"
  by (simp add: leading_def parseResponse_def codeBlocksLoop.simps stepsLoop.simps
      pushCodeBlock_def string_eval)

section \<open>The execution client\<close>

lemma pollLoop_busy:
  assumes get: "\<forall>k. axiosGet e token k = Inr (r k)" and busy: "\<forall>k. status_id (r k) = 2"
  shows "maxAttempts - a = n \<Longrightarrow>
     pollLoop e token (r a) a
       = (Inr (r (max a maxAttempts)), concat (replicate n [Delay 1000, GetResult token]))"
proof (induction n arbitrary: a)
  case 0
  then have "\<not> a < maxAttempts" by simp
  with 0 show ?case by (simp add: pollLoop.simps[of e token "r a" a] max_def)
next
  case (Suc n)
  then have lt: "a < maxAttempts" and n: "maxAttempts - Suc a = n" by simp_all
  from Suc.IH[OF n] lt get busy show ?case
    by (simp add: pollLoop.simps[of e token "r a" a] getSubmissionResult_def max_def)
qed

lemma pollLoop_events:
  "set (snd (pollLoop e token result attempts)) \<subseteq> {Delay 1000, GetResult token}"
proof (induction e token result attempts rule: pollLoop.induct)
  case (1 e token result attempts)
  show ?case
  proof (cases "status_id result \<le> 2 \<and> attempts < maxAttempts")
    case False
    then have "pollLoop e token result attempts = (Inr result, [])"
      by (subst pollLoop.simps) (simp only: if_False)
    then show ?thesis by simp
  next
    case True
    show ?thesis
    proof (cases "getSubmissionResult e token (Suc attempts)")
      case (Inl err)
      with True have "pollLoop e token result attempts = (Inl err, [Delay 1000, GetResult token])"
        by (subst pollLoop.simps) simp
      then show ?thesis by simp
    next
      case (Inr result')
      obtain outcome events where rec: "pollLoop e token result' (Suc attempts) = (outcome, events)"
        by (cases "pollLoop e token result' (Suc attempts)")
      with True Inr have "pollLoop e token result attempts
          = (outcome, Delay 1000 # GetResult token # events)"
        by (subst pollLoop.simps) simp
      with "1.IH"[OF True Inr] rec show ?thesis by simp
    qed
  qed
qed

lemma pollLoop_no_provider:
  "pollLoop e token result attempts = (outcome, events) \<Longrightarrow> AnthropicCall \<notin> set events"
  using pollLoop_events[of e token result attempts] by auto

lemma executeCode_events:
  "AnthropicCall \<notin> set (snd (executeCode e code' lang input))"
  by (auto simp add: executeCode_def Let_def dest: pollLoop_no_provider
      split: option.splits sum.splits prod.splits)

text \<open>
  Claim C3. When the key is configured, the language is supported, the submission is accepted
  and every fetch answers with status 2, \<open>executeCode\<close> returns normally with the result of
  the eleventh fetch, labelled \<open>Processing\<close>: after the submission it fetches once, then ten
  times waits a second and fetches again, and nothing more.
\<close>

theorem executeCode_poll_ceiling:
  assumes "truthy (apiKey e)"
    and "languageIds (toLowerCase lang) = Some languageId"
    and "axiosPost e \<lparr>source_code = code', language_id = languageId, stdin = input,
                       cpu_time_limit = 2, memory_limit = 128000\<rparr> = Inr token"
    and "\<forall>k. axiosGet e token k = Inr (r k)"
    and "\<forall>k. status_id (r k) = 2"
  shows "executeCode e code' lang input =
           (Inr (formatResult (r 10)),
            Submit \<lparr>source_code = code', language_id = languageId, stdin = input,
                    cpu_time_limit = 2, memory_limit = 128000\<rparr>
            # GetResult token # concat (replicate 10 [Delay 1000, GetResult token]))
         \<and> length (filter isGetResult (snd (executeCode e code' lang input))) = 1 + 10
         \<and> erStatus (formatResult (r 10)) = js ''Processing''
         \<and> erStatusId (formatResult (r 10)) = Some 2"
proof -
  from pollLoop_busy[OF assms(4,5), of 0 10]
  have loop: "pollLoop e token (r 0) 0
      = (Inr (r 10), concat (replicate 10 [Delay 1000, GetResult token]))"
    by (simp add: maxAttempts_def)
  from assms loop have run: "executeCode e code' lang input =
           (Inr (formatResult (r 10)),
            Submit \<lparr>source_code = code', language_id = languageId, stdin = input,
                    cpu_time_limit = 2, memory_limit = 128000\<rparr>
            # GetResult token # concat (replicate 10 [Delay 1000, GetResult token]))"
    by (simp add: executeCode_def getSubmissionResult_def)
  have "length (filter isGetResult (concat (replicate n [Delay 1000, GetResult token]))) = n" for n
    by (induction n) (simp_all add: isGetResult_def)
  with run have count: "length (filter isGetResult (snd (executeCode e code' lang input))) = 1 + 10"
    by (simp add: isGetResult_def)
  from assms(5) have "erStatus (formatResult (r 10)) = js ''Processing''"
    and "erStatusId (formatResult (r 10)) = Some 2"
    by (simp_all add: formatResult_def statusMap_def)
  with run count show ?thesis by simp
qed

theorem executeCode_poll_ceiling_witness:
  "truthy (apiKey busyEnv)
   \<and> languageIds (toLowerCase (js ''Python'')) = Some (LangId 71)
   \<and> axiosPost busyEnv \<lparr>source_code = js ''print(1)'', language_id = LangId 71, stdin = [],
                         cpu_time_limit = 2, memory_limit = 128000\<rparr> = Inr (js ''tok'')
   \<and> (\<forall>k. axiosGet busyEnv (js ''tok'') k = Inr busyResult)
   \<and> status_id busyResult = 2
   \<and> fst (executeCode busyEnv (js ''print(1)'') (js ''Python'') []) =
       Inr \<lparr>erStatus = js ''Processing'', erStatusId = Some 2, erOutput = Some [],
            erError = Some [], erTime = Some (js ''0''), erMemory = Some (Str (js ''0'')),
            erExitCode = None\<rparr>
   \<and> length (filter isGetResult (snd (executeCode busyEnv (js ''print(1)'') (js ''Python'') [])))
       = 11"
proof -
  have key: "truthy (apiKey busyEnv)" by (simp add: busyEnv_def truthy_def js_def)
  have lang: "languageIds (toLowerCase (js ''Python'')) = Some (LangId 71)" by (simp add: executor_eval)
  have post: "axiosPost busyEnv \<lparr>source_code = js ''print(1)'', language_id = LangId 71,
      stdin = [], cpu_time_limit = 2, memory_limit = 128000\<rparr> = Inr (js ''tok'')"
    by (simp add: busyEnv_def)
  have get: "\<forall>k. axiosGet busyEnv (js ''tok'') k = Inr ((\<lambda>k. busyResult) k)"
    by (simp add: busyEnv_def)
  have busy: "\<forall>k::nat. status_id ((\<lambda>k. busyResult) k) = 2" by (simp add: busyResult_def)
  have shape: "formatResult busyResult =
       \<lparr>erStatus = js ''Processing'', erStatusId = Some 2, erOutput = Some [],
            erError = Some [], erTime = Some (js ''0''), erMemory = Some (Str (js ''0'')),
            erExitCode = None\<rparr>"
    by (simp add: busyResult_def formatResult_def statusMap_def orElse_def js_def)
  note ceiling = executeCode_poll_ceiling[OF key lang post get busy]
  from ceiling have "fst (executeCode busyEnv (js ''print(1)'') (js ''Python'') [])
      = Inr (formatResult busyResult)"
    by simp
  with shape have run: "fst (executeCode busyEnv (js ''print(1)'') (js ''Python'') []) =
       Inr \<lparr>erStatus = js ''Processing'', erStatusId = Some 2, erOutput = Some [],
            erError = Some [], erTime = Some (js ''0''), erMemory = Some (Str (js ''0'')),
            erExitCode = None\<rparr>"
    by simp
  from ceiling have "length (filter isGetResult
      (snd (executeCode busyEnv (js ''print(1)'') (js ''Python'') []))) = 1 + 10"
    by blast
  then have polls: "length (filter isGetResult
      (snd (executeCode busyEnv (js ''print(1)'') (js ''Python'') []))) = 11"
    by simp
  have get': "\<forall>k. axiosGet busyEnv (js ''tok'') k = Inr busyResult"
    by (simp add: busyEnv_def)
  have busy': "status_id busyResult = 2" by (simp add: busyResult_def)
  from key lang post get' busy' run polls show ?thesis by blast
qed

text \<open>
  Claim C1 does not hold of the code. \<open>executeCode\<close> never calls \<open>validateCode\<close>: with a
  configured key and a supported language it submits whatever code it is given. The concrete
  check shows \<open>os.system('rm -rf /')\<close> and the empty string, both refused by
  \<open>validateCode\<close>, reaching the remote executor.
\<close>

theorem executeCode_submits_unvalidated:
  assumes "truthy (apiKey e)" and "languageIds (toLowerCase lang) = Some languageId"
  shows "\<exists>later. snd (executeCode e code' lang input) =
           Submit \<lparr>source_code = code', language_id = languageId, stdin = input,
                   cpu_time_limit = 2, memory_limit = 128000\<rparr> # later"
  using assms
  by (auto simp add: executeCode_def Let_def split: sum.splits prod.splits)

theorem executeCode_submits_unvalidated_witness:
  "truthy (apiKey acceptingEnv)
   \<and> languageIds (toLowerCase (js ''python'')) = Some (LangId 71)
   \<and> validateCode (Some rmrf) (Some (js ''python''))
       = Inl (Error (js ''Code contains potentially dangerous operations''))
   \<and> snd (executeCode acceptingEnv rmrf (js ''python'') [])
       = [Submit \<lparr>source_code = rmrf, language_id = LangId 71, stdin = [],
                   cpu_time_limit = 2, memory_limit = 128000\<rparr>,
          GetResult (js ''tok'')]
   \<and> validateCode (Some []) (Some (js ''python'')) = Inl (Error (js ''Code cannot be empty''))
   \<and> snd (executeCode acceptingEnv [] (js ''python'') [])
       = [Submit \<lparr>source_code = [], language_id = LangId 71, stdin = [],
                   cpu_time_limit = 2, memory_limit = 128000\<rparr>,
          GetResult (js ''tok'')]"
proof -
  have key: "truthy (apiKey acceptingEnv)" by (simp add: acceptingEnv_def truthy_def js_def)
  have lang: "languageIds (toLowerCase (js ''python'')) = Some (LangId 71)" by (simp add: executor_eval)
  have refused: "validateCode (Some rmrf) (Some (js ''python''))
       = Inl (Error (js ''Code contains potentially dangerous operations''))"
    by (simp add: rmrf_def executor_eval)
  have empty: "validateCode (Some []) (Some (js ''python''))
       = Inl (Error (js ''Code cannot be empty''))"
    by (simp add: executor_eval)
  have poll: "pollLoop acceptingEnv (js ''tok'') acceptedResult 0 = (Inr acceptedResult, [])"
    by (simp add: pollLoop.simps acceptedResult_def)
  have tail: "snd (executeCode acceptingEnv code' (js ''python'') []) =
      Submit \<lparr>source_code = code', language_id = LangId 71, stdin = [],
              cpu_time_limit = 2, memory_limit = 128000\<rparr> # later
    \<Longrightarrow> later = [GetResult (js ''tok'')]" for code' later
    using key lang poll
    by (simp add: executeCode_def getSubmissionResult_def acceptingEnv_def)
  from executeCode_submits_unvalidated[OF key lang, of rmrf "[]"] tail[of rmrf]
  have a: "snd (executeCode acceptingEnv rmrf (js ''python'') [])
       = [Submit \<lparr>source_code = rmrf, language_id = LangId 71, stdin = [],
                   cpu_time_limit = 2, memory_limit = 128000\<rparr>,
          GetResult (js ''tok'')]"
    by auto
  from executeCode_submits_unvalidated[OF key lang, of "[]" "[]"] tail[of "[]"]
  have b: "snd (executeCode acceptingEnv [] (js ''python'') [])
       = [Submit \<lparr>source_code = [], language_id = LangId 71, stdin = [],
                   cpu_time_limit = 2, memory_limit = 128000\<rparr>,
          GetResult (js ''tok'')]"
    by auto
  from key lang refused a empty b show ?thesis by blast
qed

section \<open>The coordinator\<close>

lemma generateSolution_default:
  "generateSolution e problem None =
     (case openai e problem of
        Inl err \<Rightarrow> (Inl (Error (js ''AI service error: '' @ message err)), [OpenAICall])
      | Inr response \<Rightarrow>
          (case parseResponse (content response) of
             Inl err \<Rightarrow> (Inl err, [OpenAICall])
           | Inr parsed \<Rightarrow>
               (Inr \<lparr>resAnswer = content response, resExplanation = explanation parsed,
                     resCode = code parsed, resSteps = steps parsed,
                     resAiModel = js ''gpt-4'',
                     resTokenUsage = \<lparr>prompt = inputTokens response,
                                       completion = outputTokens response,
                                       total = totalTokens response\<rparr>,
                     resProcessingTime = latency response\<rparr>,
                [OpenAICall])))"
  by (simp add: generateSolution_def generateSolutionGPT_def js_def split: sum.splits)

lemma generateSolution_default_events: "snd (generateSolution e problem None) = [OpenAICall]"
  by (simp add: generateSolution_default split: sum.splits)

lemma generateSolution_default_Inr:
  assumes "generateSolution e problem None = (Inr r, evs)"
  shows "\<exists>parsed. parseResponse (resAnswer r) = Inr parsed \<and> resCode r = code parsed
     \<and> resAiModel r = js ''gpt-4'' \<and> evs = [OpenAICall]"
proof (cases "openai e problem")
  case (Inl err)
  with assms show ?thesis by (simp add: generateSolution_default)
next
  case (Inr response)
  show ?thesis
  proof (cases "parseResponse (content response)")
    case (Inl err)
    with Inr assms show ?thesis by (simp add: generateSolution_default)
  next
    case parsed: (Inr parsed)
    with Inr assms show ?thesis by (auto simp add: generateSolution_default)
  qed
qed

lemma generateSolution_default_valid:
  assumes "generateSolution e problem None = (Inr r, evs)" and "snippet (resCode r) \<noteq> []"
  shows "solutionValid r"
proof -
  from generateSolution_default_Inr[OF assms(1)] obtain parsed where
    p: "parseResponse (resAnswer r) = Inr parsed"
    and r: "resCode r = code parsed" "resAiModel r = js ''gpt-4''"
    by blast
  have "resAnswer r \<noteq> []"
  proof
    assume "resAnswer r = []"
    with p parseResponse_empty have "snippet (code parsed) = []" by auto
    with r assms(2) show False by simp
  qed
  with r show ?thesis by (simp add: solutionValid_def)
qed

lemma trim_nonempty: "trim s \<noteq> [] \<Longrightarrow> s \<noteq> []"
  by (auto simp add: trim_def)

lemma problemValid_truthy:
  assumes "problemValid body"
  shows "truthy (title body) \<and> truthy (bodyDescription body) \<and> truthy (category body)"
proof -
  from assms have "trim (orElse (title body) []) \<noteq> []"
    and "trim (orElse (bodyDescription body) []) \<noteq> []"
    and "orElse (category body) [] \<in> set (map js categories)"
    by (simp_all add: problemValid_def)
  then have "orElse (title body) [] \<noteq> []" and "orElse (bodyDescription body) [] \<noteq> []"
    and "orElse (category body) [] \<noteq> []"
    by (auto dest: trim_nonempty simp add: categories_def js_def)
  then show ?thesis by (auto simp add: orElse_def truthy_def split: option.splits if_splits)
qed

lemma createAndSolve_executed:
  assumes "problemValid body"
    and "generateSolution e body None = (Inr aiRes, evs)"
    and "snippet (resCode aiRes) \<noteq> []"
    and "truthy (bodyLanguage body)"
    and "executeCode e (snippet (resCode aiRes)) (orElse (bodyLanguage body) []) []
           = (outcome, evs')"
  shows "createAndSolve e reqUser body st =
           (st\<lparr>problems := problems st
                   @ [created body solved (Some (length (solutions st)))],
               solutions := solutions st
                   @ [stored (length (problems st)) aiRes
                        (Some (case outcome of
                                 Inl execError \<Rightarrow> degraded execError
                               | Inr result \<Rightarrow> result))],
               userDoc := incrementQueryCount reqUser\<rparr>,
            \<lparr>httpStatus = 201, success = True\<rparr>, evs @ evs')"
proof -
  note valid = generateSolution_default_valid[OF assms(2,3)]
  show ?thesis
  proof (cases outcome)
    case (Inl execError)
    with assms problemValid_truthy[OF assms(1)] valid show ?thesis
      by (simp add: createAndSolve_def created_def stored_def Let_def)
  next
    case (Inr result)
    with assms problemValid_truthy[OF assms(1)] valid show ?thesis
      by (simp add: createAndSolve_def created_def stored_def Let_def)
  qed
qed

lemma createAndSolve_not_executed:
  assumes "problemValid body"
    and "generateSolution e body None = (Inr aiRes, evs)"
    and "solutionValid aiRes"
    and "\<not> (snippet (resCode aiRes) \<noteq> [] \<and> truthy (bodyLanguage body))"
  shows "createAndSolve e reqUser body st =
           (st\<lparr>problems := problems st
                   @ [created body solved (Some (length (solutions st)))],
               solutions := solutions st @ [stored (length (problems st)) aiRes None],
               userDoc := incrementQueryCount reqUser\<rparr>,
            \<lparr>httpStatus = 201, success = True\<rparr>, evs)"
proof (cases "snippet (resCode aiRes) = []")
  case True
  with assms(1,2,3) problemValid_truthy[OF assms(1)] show ?thesis
    by (simp add: createAndSolve_def created_def stored_def Let_def)
next
  case False
  with assms(4) have "\<not> truthy (bodyLanguage body)" by simp
  with assms(1,2,3) problemValid_truthy[OF assms(1)] show ?thesis
    by (simp add: createAndSolve_def created_def stored_def Let_def)
qed

lemma createAndSolve_rejected:
  assumes "problemValid body"
    and "generateSolution e body None = (generated, evs)"
    and "(case generated of Inl aiError \<Rightarrow> True | Inr aiRes \<Rightarrow> \<not> solutionValid aiRes)"
  shows "createAndSolve e reqUser body st =
           (st\<lparr>problems := problems st @ [created body failed None]\<rparr>,
            \<lparr>httpStatus = 500, success = False\<rparr>, evs)"
  using assms problemValid_truthy[OF assms(1)]
  by (cases generated) (simp_all add: createAndSolve_def created_def Let_def)

lemma createAndSolve_not_created:
  assumes "\<not> problemValid body"
  shows "fst (createAndSolve e reqUser body st) = st \<and> snd (snd (createAndSolve e reqUser body st)) = []"
  using assms by (simp add: createAndSolve_def)

lemma createAndSolve_primary:
  "AnthropicCall \<notin> set (snd (snd (createAndSolve e reqUser body st)))
   \<and> take (length (solutions st)) (solutions (fst (createAndSolve e reqUser body st)))
       = solutions st
   \<and> (\<forall>s \<in> set (drop (length (solutions st))
                  (solutions (fst (createAndSolve e reqUser body st)))).
         aiModel s = js ''gpt-4'')"
proof (cases "problemValid body")
  case False
  from createAndSolve_not_created[OF False, of e reqUser st] show ?thesis by simp
next
  case valid: True
  obtain generated evs where gen: "generateSolution e body None = (generated, evs)"
    by (cases "generateSolution e body None")
  with generateSolution_default_events[of e body] have evs: "evs = [OpenAICall]" by simp
  show ?thesis
  proof (cases "case generated of Inl aiError \<Rightarrow> True | Inr aiRes \<Rightarrow> \<not> solutionValid aiRes")
    case True
    from createAndSolve_rejected[OF valid gen True, of reqUser st] evs show ?thesis by simp
  next
    case False
    then obtain aiRes where res: "generated = Inr aiRes" and ok: "solutionValid aiRes"
      by (cases generated) auto
    from gen res have gen': "generateSolution e body None = (Inr aiRes, evs)" by simp
    from generateSolution_default_Inr[OF gen'] have model: "resAiModel aiRes = js ''gpt-4''"
      by blast
    show ?thesis
    proof (cases "snippet (resCode aiRes) \<noteq> [] \<and> truthy (bodyLanguage body)")
      case False
      from createAndSolve_not_executed[OF valid gen' ok False, of reqUser st] evs model
      show ?thesis by (simp add: stored_def)
    next
      case True
      obtain outcome evs' where
        run: "executeCode e (snippet (resCode aiRes)) (orElse (bodyLanguage body) []) []
                = (outcome, evs')"
        by (cases "executeCode e (snippet (resCode aiRes)) (orElse (bodyLanguage body) []) []")
      from executeCode_events[of e "snippet (resCode aiRes)" "orElse (bodyLanguage body) []" "[]"]
        run have "AnthropicCall \<notin> set evs'" by simp
      with createAndSolve_executed[OF valid gen' _ _ run, of reqUser st] True evs model
      show ?thesis by (simp add: stored_def)
    qed
  qed
qed

lemma generateSolution_flakyEnv:
  "generateSolution flakyEnv sumArray None = (Inr generatedSum, [OpenAICall])"
  by (simp add: generateSolution_default flakyEnv_def answering_def generatedSum_def
      pythonAnswer_def parser_eval)

lemma executeCode_flakyEnv:
  "executeCode flakyEnv (js ''print(sum([1,2]))'') (js ''python'') []
     = (Inl (Error (js ''Code execution failed: ECONNREFUSED'')),
        [Submit \<lparr>source_code = js ''print(sum([1,2]))'', language_id = LangId 71, stdin = [],
                  cpu_time_limit = 2, memory_limit = 128000\<rparr>])"
  by (simp add: flakyEnv_def refusing_def executor_eval)

text \<open>
  The route hands generated code to \<open>executeCode\<close> without validating it either: an answer
  whose code block is \<open>os.system('rm -rf /')\<close> is submitted.
\<close>

lemma postProblem_trustingEnv:
  "snd (snd (postProblem trustingEnv march sumArray emptyStore)) =
     [OpenAICall,
      Submit \<lparr>source_code = rmrf, language_id = LangId 71, stdin = [],
              cpu_time_limit = 2, memory_limit = 128000\<rparr>,
      GetResult (js ''tok'')]"
proof -
  let ?res = "\<lparr>resAnswer = dangerousAnswer, resExplanation = js ''Clean up.'',
      resCode = \<lparr>language = js ''python'', snippet = rmrf, optimizedVersion = []\<rparr>,
      resSteps = [], resAiModel = js ''gpt-4'',
      resTokenUsage = \<lparr>prompt = 10, completion = 20, total = 30\<rparr>,
      resProcessingTime = 5\<rparr>"
  have adm: "canMakeQuery march (userDoc emptyStore) = (True, freshUser 3 march)"
    by (simp add: emptyStore_def canMakeQuery_def resetMonthlyQueries_def freshUser_def Let_def)
  have valid: "problemValid sumArray"
    by (simp add: problemValid_def sumArray_def categories_def difficulties_def orElse_def
        trim_def isWhiteSpace_def js_def)
  have gen: "generateSolution trustingEnv sumArray None = (Inr ?res, [OpenAICall])"
    by (simp add: generateSolution_default trustingEnv_def answering_def dangerousAnswer_def
        rmrf_def parser_eval)
  have code: "snippet (resCode ?res) \<noteq> []" by (simp add: rmrf_def js_def)
  have lang: "truthy (bodyLanguage sumArray)" by (simp add: sumArray_def truthy_def js_def)
  have run: "executeCode trustingEnv (snippet (resCode ?res))
            (orElse (bodyLanguage sumArray) []) []
     = (Inr (formatResult acceptedResult),
        [Submit \<lparr>source_code = rmrf, language_id = LangId 71, stdin = [],
                  cpu_time_limit = 2, memory_limit = 128000\<rparr>,
         GetResult (js ''tok'')])"
    by (simp add: trustingEnv_def acceptedResult_def sumArray_def pollLoop.simps executor_eval)
  from adm createAndSolve_executed[OF valid gen code lang run, of "freshUser 3 march" emptyStore]
  show ?thesis by (simp add: postProblem_def)
qed

text \<open>
  Claim C4. For an admitted submission whose problem is created, when the generator fails the
  route leaves the store with the new problem in state \<open>failed\<close> and without a solution
  reference, the solutions and the user document unchanged, and its only outside call is the
  one to the provider: the execution client is not invoked and no query is counted.
\<close>

theorem generation_failure_path:
  assumes "fst (canMakeQuery now (userDoc st))"
    and "problemValid body"
    and "fst (generateSolution e body None) = Inl aiError"
  shows "postProblem e now body st =
           (st\<lparr>problems := problems st @ [created body failed None]\<rparr>,
            \<lparr>httpStatus = 500, success = False\<rparr>, [OpenAICall])"
proof -
  from generateSolution_default_events[of e body] assms(3)
  have gen: "generateSolution e body None = (Inl aiError, [OpenAICall])"
    by (cases "generateSolution e body None") simp
  from assms(1) obtain reqUser where adm: "canMakeQuery now (userDoc st) = (True, reqUser)"
    by (cases "canMakeQuery now (userDoc st)") simp
  from adm problemValid_truthy[OF assms(2)] assms(2) gen show ?thesis
    by (simp add: postProblem_def createAndSolve_def created_def Let_def)
qed

theorem generation_failure_path_witness:
  "fst (canMakeQuery march (userDoc \<lparr>problems = [], solutions = [], userDoc = freshUser 3 march\<rparr>))
   \<and> problemValid sumArray
   \<and> fst (generateSolution busyEnv sumArray None)
       = Inl (Error (js ''AI service error: timeout''))
   \<and> postProblem busyEnv march sumArray
        \<lparr>problems = [], solutions = [], userDoc = freshUser 3 march\<rparr>
       = (\<lparr>problems = [created sumArray failed None], solutions = [],
           userDoc = freshUser 3 march\<rparr>,
          \<lparr>httpStatus = 500, success = False\<rparr>, [OpenAICall])"
proof -
  let ?st = "\<lparr>problems = [], solutions = [], userDoc = freshUser 3 march\<rparr>"
  have adm: "fst (canMakeQuery march (userDoc ?st))"
    by (simp add: canMakeQuery_def resetMonthlyQueries_def freshUser_def Let_def)
  have valid: "problemValid sumArray"
    by (simp add: problemValid_def sumArray_def categories_def difficulties_def orElse_def
        trim_def isWhiteSpace_def js_def)
  have gen: "fst (generateSolution busyEnv sumArray None)
       = Inl (Error (js ''AI service error: timeout''))"
    by (simp add: generateSolution_default busyEnv_def noCompletion_def js_def)
  from generation_failure_path[OF adm valid gen] adm valid gen show ?thesis by simp
qed

text \<open>
  Claim C5. For an admitted submission whose problem is created, when the generator succeeds
  with a code snippet and the request names a language, the new problem ends in state
  \<open>solved\<close> whatever \<open>executeCode\<close> does; and when \<open>executeCode\<close> throws, the stored
  solution carries the execution result with status \<open>Execution Failed\<close> and the thrown
  message as its error.
\<close>

theorem execution_degradation:
  assumes "fst (canMakeQuery now (userDoc st))"
    and "problemValid body"
    and "generateSolution e body None = (Inr aiRes, evs)"
    and "snippet (resCode aiRes) \<noteq> []"
    and "truthy (bodyLanguage body)"
  shows "map status (drop (length (problems st)) (problems (fst (postProblem e now body st))))
           = [solved]
     \<and> (fst (executeCode e (snippet (resCode aiRes)) (orElse (bodyLanguage body) []) [])
           = Inl execError \<longrightarrow>
         fst (postProblem e now body st) =
           st\<lparr>problems := problems st
                   @ [created body solved (Some (length (solutions st)))],
               solutions := solutions st
                   @ [stored (length (problems st)) aiRes
                        (Some \<lparr>erStatus = js ''Execution Failed'', erStatusId = None,
                               erOutput = None, erError = Some (message execError),
                               erTime = None, erMemory = None, erExitCode = None\<rparr>)],
               userDoc := incrementQueryCount (snd (canMakeQuery now (userDoc st)))\<rparr>)"
proof -
  from assms(1) obtain reqUser where adm: "canMakeQuery now (userDoc st) = (True, reqUser)"
    by (cases "canMakeQuery now (userDoc st)") simp
  obtain outcome evs' where
    run: "executeCode e (snippet (resCode aiRes)) (orElse (bodyLanguage body) []) []
            = (outcome, evs')"
    by (cases "executeCode e (snippet (resCode aiRes)) (orElse (bodyLanguage body) []) []")
  from adm have route: "postProblem e now body st = createAndSolve e reqUser body st"
    by (simp add: postProblem_def)
  note outcome_eq = createAndSolve_executed[OF assms(2,3,4,5) run, of reqUser st]
  from route outcome_eq have "map status
      (drop (length (problems st)) (problems (fst (postProblem e now body st)))) = [solved]"
    by (simp add: created_def)
  moreover have "fst (postProblem e now body st) =
           st\<lparr>problems := problems st
                   @ [created body solved (Some (length (solutions st)))],
               solutions := solutions st
                   @ [stored (length (problems st)) aiRes
                        (Some \<lparr>erStatus = js ''Execution Failed'', erStatusId = None,
                               erOutput = None, erError = Some (message execError),
                               erTime = None, erMemory = None, erExitCode = None\<rparr>)],
               userDoc := incrementQueryCount (snd (canMakeQuery now (userDoc st)))\<rparr>"
    if "fst (executeCode e (snippet (resCode aiRes)) (orElse (bodyLanguage body) []) [])
           = Inl execError"
  proof -
    from that run have "outcome = Inl execError" by simp
    with route outcome_eq adm show ?thesis by (simp add: degraded_def)
  qed
  ultimately show ?thesis by blast
qed

theorem execution_degradation_witness:
  "fst (canMakeQuery march (userDoc emptyStore))
   \<and> problemValid sumArray
   \<and> generateSolution flakyEnv sumArray None = (Inr generatedSum, [OpenAICall])
   \<and> snippet (resCode generatedSum) \<noteq> []
   \<and> truthy (bodyLanguage sumArray)
   \<and> fst (executeCode flakyEnv (snippet (resCode generatedSum))
            (orElse (bodyLanguage sumArray) []) [])
       = Inl (Error (js ''Code execution failed: ECONNREFUSED''))
   \<and> map status (problems (fst (postProblem flakyEnv march sumArray emptyStore))) = [solved]
   \<and> map executionResult (solutions (fst (postProblem flakyEnv march sumArray emptyStore)))
       = [Some \<lparr>erStatus = js ''Execution Failed'', erStatusId = None, erOutput = None,
                 erError = Some (js ''Code execution failed: ECONNREFUSED''),
                 erTime = None, erMemory = None, erExitCode = None\<rparr>]"
proof -
  have adm: "fst (canMakeQuery march (userDoc emptyStore))"
    by (simp add: emptyStore_def canMakeQuery_def resetMonthlyQueries_def freshUser_def Let_def)
  have valid: "problemValid sumArray"
    by (simp add: problemValid_def sumArray_def categories_def difficulties_def orElse_def
        trim_def isWhiteSpace_def js_def)
  note gen = generateSolution_flakyEnv
  have code: "snippet (resCode generatedSum) \<noteq> []" by (simp add: generatedSum_def js_def)
  have lang: "truthy (bodyLanguage sumArray)" by (simp add: sumArray_def truthy_def js_def)
  have run: "fst (executeCode flakyEnv (snippet (resCode generatedSum))
            (orElse (bodyLanguage sumArray) []) [])
       = Inl (Error (js ''Code execution failed: ECONNREFUSED''))"
    using executeCode_flakyEnv by (simp add: generatedSum_def sumArray_def orElse_def js_def)
  note inst = execution_degradation[OF adm valid gen code lang,
      of "Error (js ''Code execution failed: ECONNREFUSED'')"]
  from inst have a: "map status (problems (fst (postProblem flakyEnv march sumArray emptyStore)))
      = [solved]"
    by (simp add: emptyStore_def)
  from inst run have "fst (postProblem flakyEnv march sumArray emptyStore) =
           emptyStore\<lparr>problems := problems emptyStore
                   @ [created sumArray solved (Some (length (solutions emptyStore)))],
               solutions := solutions emptyStore
                   @ [stored (length (problems emptyStore)) generatedSum
                        (Some \<lparr>erStatus = js ''Execution Failed'', erStatusId = None,
                               erOutput = None,
                               erError = Some (message (Error
                                  (js ''Code execution failed: ECONNREFUSED''))),
                               erTime = None, erMemory = None, erExitCode = None\<rparr>)],
               userDoc := incrementQueryCount (snd (canMakeQuery march (userDoc emptyStore)))\<rparr>"
    by blast
  then have b: "map executionResult
      (solutions (fst (postProblem flakyEnv march sumArray emptyStore)))
       = [Some \<lparr>erStatus = js ''Execution Failed'', erStatusId = None, erOutput = None,
                 erError = Some (js ''Code execution failed: ECONNREFUSED''),
                 erTime = None, erMemory = None, erExitCode = None\<rparr>]"
    by (simp add: emptyStore_def stored_def)
  from adm valid gen code lang run a b show ?thesis by blast
qed

text \<open>
  Claim C10. The route calls \<open>generateSolution\<close> without a model, so the only provider ever
  called is the primary one, the secondary one is never called, also when it is configured,
  and every solution the route adds to the store has \<open>aiModel = 'gpt-4'\<close>.
\<close>

theorem solve_uses_primary_provider:
  "snd (generateSolution e body None) = [OpenAICall]
   \<and> AnthropicCall \<notin> set (snd (snd (postProblem e now body st)))
   \<and> take (length (solutions st)) (solutions (fst (postProblem e now body st))) = solutions st
   \<and> (\<forall>s \<in> set (drop (length (solutions st)) (solutions (fst (postProblem e now body st)))).
         aiModel s = js ''gpt-4'')"
proof (cases "fst (canMakeQuery now (userDoc st))")
  case False
  then have "postProblem e now body st = (st, \<lparr>httpStatus = 429, success = False\<rparr>, [])"
    by (cases "canMakeQuery now (userDoc st)") (simp add: postProblem_def)
  with generateSolution_default_events[of e body] show ?thesis by simp
next
  case True
  then have "postProblem e now body st
      = createAndSolve e (snd (canMakeQuery now (userDoc st))) body st"
    by (cases "canMakeQuery now (userDoc st)") (simp add: postProblem_def)
  with createAndSolve_primary[of e "snd (canMakeQuery now (userDoc st))" body st]
    generateSolution_default_events[of e body]
  show ?thesis by simp
qed

theorem solve_uses_primary_provider_witness:
  "anthropic flakyEnv \<noteq> None
   \<and> snd (generateSolution flakyEnv sumArray None) = [OpenAICall]
   \<and> AnthropicCall \<notin> set (snd (snd (postProblem flakyEnv march sumArray emptyStore)))
   \<and> map aiModel (solutions (fst (postProblem flakyEnv march sumArray emptyStore)))
       = [js ''gpt-4'']"
proof -
  have adm: "canMakeQuery march (userDoc emptyStore) = (True, freshUser 3 march)"
    by (simp add: emptyStore_def canMakeQuery_def resetMonthlyQueries_def freshUser_def Let_def)
  have valid: "problemValid sumArray"
    by (simp add: problemValid_def sumArray_def categories_def difficulties_def orElse_def
        trim_def isWhiteSpace_def js_def)
  have code: "snippet (resCode generatedSum) \<noteq> []" by (simp add: generatedSum_def js_def)
  have lang: "truthy (bodyLanguage sumArray)" by (simp add: sumArray_def truthy_def js_def)
  have run: "executeCode flakyEnv (snippet (resCode generatedSum))
            (orElse (bodyLanguage sumArray) []) []
     = (Inl (Error (js ''Code execution failed: ECONNREFUSED'')),
        [Submit \<lparr>source_code = js ''print(sum([1,2]))'', language_id = LangId 71, stdin = [],
                  cpu_time_limit = 2, memory_limit = 128000\<rparr>])"
    using executeCode_flakyEnv by (simp add: generatedSum_def sumArray_def orElse_def js_def)
  from adm createAndSolve_executed[OF valid generateSolution_flakyEnv code lang run,
      of "freshUser 3 march" emptyStore]
  have "map aiModel (solutions (fst (postProblem flakyEnv march sumArray emptyStore)))
       = [js ''gpt-4'']"
    by (simp add: postProblem_def emptyStore_def stored_def generatedSum_def)
  moreover have "anthropic flakyEnv \<noteq> None" by (simp add: flakyEnv_def)
  moreover note solve_uses_primary_provider[of flakyEnv sumArray march emptyStore]
  ultimately show ?thesis by blast
qed

end
